theory Spec2Isabelle
  imports Main "HOL-Library.Sublist"
begin

section \<open>Python string operations used by tasks.py\<close>

text \<open>
  Python \<open>str\<close> values are modelled as \<open>string\<close>: a list of characters, each standing
  for the Unicode code point of the same number, so the model holds the texts whose
  code points are below 256. The operations below follow the built-ins on this range.
\<close>

definition endswith :: "string \<Rightarrow> string \<Rightarrow> bool" where
  "endswith s suf = suffix suf s"

definition removesuffix :: "string \<Rightarrow> string \<Rightarrow> string" where
  "removesuffix s suf = (if suffix suf s then take (length s - length suf) s else s)"

text \<open>
  \<open>s.replace(old, new)\<close>: every non-overlapping occurrence of \<open>old\<close>, scanning from
  the left, is replaced by \<open>new\<close>. With an empty \<open>old\<close> Python puts \<open>new\<close> before every
  character and at the end.
\<close>

function replace_py :: "string \<Rightarrow> string \<Rightarrow> string \<Rightarrow> string" where
  "replace_py old new s =
     (if old = [] then new @ concat (map (\<lambda>c. c # new) s)
      else if s = [] then []
      else if prefix old s then new @ replace_py old new (drop (length old) s)
      else hd s # replace_py old new (tl s))"
  by pat_completeness auto
termination
  by (relation "measure (\<lambda>(old, new, s). length s)") auto

declare replace_py.simps [simp del]

text \<open>
  \<open>str.lower\<close>: the upper-case letters below 256 are A to Z (65 to 90) and the
  accented capitals 192 to 222 without the multiplication sign 215; the lower-case
  letter is 32 further.
\<close>

definition py_lower_char :: "char \<Rightarrow> char" where
  "py_lower_char c =
     (let n = of_char c :: nat in
      if (65 \<le> n \<and> n \<le> 90) \<or> (192 \<le> n \<and> n \<le> 222 \<and> n \<noteq> 215) then char_of (n + 32)
      else c)"

definition py_lower :: "string \<Rightarrow> string" where
  "py_lower s = map py_lower_char s"

text \<open>
  The code points below 256 for which \<open>str.isspace\<close> holds: 9 to 13, 28 to 32, the
  next-line control 133 and the no-break space 160.
\<close>

definition py_isspace :: "char \<Rightarrow> bool" where
  "py_isspace c = ((of_char c :: nat) \<in> {9, 10, 11, 12, 13, 28, 29, 30, 31, 32, 133, 160})"

definition py_strip :: "string \<Rightarrow> string" where
  "py_strip s = rev (dropWhile py_isspace (rev (dropWhile py_isspace s)))"

definition digit_char :: "nat \<Rightarrow> char" where
  "digit_char d = ''0123456789'' ! (d mod 10)"

text \<open>\<open>str(n)\<close> for an integer: decimal digits, a minus sign for negatives.\<close>

function str_nat :: "nat \<Rightarrow> string" where
  "str_nat n = (if n < 10 then [digit_char n] else str_nat (n div 10) @ [digit_char (n mod 10)])"
  by pat_completeness auto
termination
  by (relation "measure id") auto

declare str_nat.simps [simp del]

definition str_int :: "int \<Rightarrow> string" where
  "str_int i = (if i < 0 then CHR ''-'' # str_nat (nat (- i)) else str_nat (nat i))"

text \<open>
  \<open>repr(s)\<close> of a string: it is written between single quotes, or between double
  quotes when it holds a single quote and no double quote. The quote character in
  use and the backslash are escaped with a backslash; tab, line feed and carriage
  return are written \<open>\t\<close>, \<open>\n\<close>, \<open>\r\<close>; every other code point that is not
  printable is written \<open>\xhh\<close>. Below 256 the printable code points are 32 to 126 and
  161 to 255 without the soft hyphen 173.
\<close>

definition hex_digit :: "nat \<Rightarrow> char" where
  "hex_digit d = ''0123456789abcdef'' ! (d mod 16)"

definition repr_char :: "char \<Rightarrow> char \<Rightarrow> string" where
  "repr_char quote c =
     (let n = of_char c :: nat in
      if c = quote \<or> c = CHR 0x5C then [CHR 0x5C, c]
      else if n = 9 then [CHR 0x5C, CHR ''t'']
      else if n = 10 then [CHR 0x5C, CHR ''n'']
      else if n = 13 then [CHR 0x5C, CHR ''r'']
      else if n < 32 \<or> n = 127 \<or> (128 \<le> n \<and> n \<le> 160) \<or> n = 173 then
        [CHR 0x5C, CHR ''x'', hex_digit (n div 16), hex_digit (n mod 16)]
      else [c])"

definition py_repr :: "string \<Rightarrow> string" where
  "py_repr s =
     (let quote = (if CHR 0x27 \<in> set s \<and> CHR 0x22 \<notin> set s then CHR 0x22 else CHR 0x27)
      in quote # concat (map (repr_char quote) s) @ [quote])"

text \<open>
  \<open>int(s)\<close> in base ten. A text with a code point from 128 on is first rewritten:
  code points below 127 stay, white space becomes a blank, and any other code point
  that is not a decimal digit (below 256 there is none from 127 on) becomes a
  question mark, which no number contains. Then blanks and the control characters
  9 to 13 are skipped at both ends, one sign is allowed, and decimal digits follow
  with single underscores between digits. Anything else raises ValueError, modelled
  as \<open>None\<close>. The interpreter also refuses literals of more than 4300 digits.
\<close>

definition int_ascii :: "string \<Rightarrow> string" where
  "int_ascii s =
     (if list_all (\<lambda>c. (of_char c :: nat) < 128) s then s
      else map (\<lambda>c. if (of_char c :: nat) < 127 then c
                     else if py_isspace c then CHR '' ''
                     else CHR ''?'') s)"

definition int_isspace :: "char \<Rightarrow> bool" where
  "int_isspace c = ((of_char c :: nat) \<in> {9, 10, 11, 12, 13, 32})"

definition digit_val :: "char \<Rightarrow> nat option" where
  "digit_val c = map_of (zip ''0123456789'' [0 ..< 10]) c"

fun digits_ok :: "string \<Rightarrow> bool" where
  "digits_ok [] = False"
| "digits_ok [c] = (digit_val c \<noteq> None)"
| "digits_ok (c # d # cs) =
     (if digit_val c = None then False
      else if d = CHR ''_'' then digits_ok cs
      else digits_ok (d # cs))"

definition digits_value :: "string \<Rightarrow> nat" where
  "digits_value ds = foldl (\<lambda>acc c. 10 * acc + the (digit_val c)) 0 ds"

definition py_int :: "string \<Rightarrow> int option" where
  "py_int s =
     (let t = rev (dropWhile int_isspace (rev (dropWhile int_isspace (int_ascii s))));
          neg = (t \<noteq> [] \<and> hd t = CHR ''-'');
          body = (if t \<noteq> [] \<and> (hd t = CHR ''-'' \<or> hd t = CHR ''+'') then tl t else t);
          ds = filter (\<lambda>c. c \<noteq> CHR ''_'') body
      in if digits_ok body \<and> length ds \<le> 4300
         then Some (if neg then - int (digits_value ds) else int (digits_value ds))
         else None)"

section \<open>The transcoding job: \<open>Transcode.__init__\<close>\<close>

text \<open>
  The attributes \<open>output_file\<close> and \<open>video_title\<close> are assigned only when the filename
  ends in \<open>.mkv\<close> or \<open>.mp4\<close>; for any other filename they stay unset (\<open>None\<close>), and
  reading them later raises AttributeError. The database file name \<open>sqlite_db\<close> is not
  modelled: there is one queue table, held in the world state below.
\<close>

record transcode_job =
  t_path :: string
  t_filename :: string
  input_file :: string
  output_file :: "string option"
  video_title :: "string option"

definition Transcode :: "string \<Rightarrow> string \<Rightarrow> transcode_job" where
  "Transcode path filename =
     (let inp = path @ ''/'' @ filename in
      if endswith filename ''.mkv'' then
        \<lparr>t_path = path, t_filename = filename, input_file = inp,
         output_file = Some (replace_py ''.mkv'' ''.mp4'' inp),
         video_title = Some (removesuffix filename ''.mkv'')\<rparr>
      else if endswith filename ''.mp4'' then
        \<lparr>t_path = path, t_filename = filename, input_file = inp,
         output_file = Some (replace_py ''.mp4'' ''.h265'' inp),
         video_title = Some (removesuffix filename ''.mp4'')\<rparr>
      else
        \<lparr>t_path = path, t_filename = filename, input_file = inp,
         output_file = None, video_title = None\<rparr>)"

section \<open>World state: queue table, file system, log, external calls\<close>

text \<open>
  A row of the table \<open>queue\<close>. The columns are text, as in the SQL statements of
  tasks.py.
\<close>

record queue_entry =
  q_path :: string
  q_filename :: string
  q_transcode :: string
  q_status :: string

definition entry_key :: "queue_entry \<Rightarrow> string \<times> string" where
  "entry_key r = (q_path r, q_filename r)"

datatype level = DEBUG | INFO | WARNING | ERROR

text \<open>
  The calls the program makes on its surroundings, in the order it makes them: a
  committed \<open>UPDATE\<close> of a status, a run of the transcoding engine (input, output), the
  removal of a file, the renaming of a file over another.
\<close>

datatype call =
    StatusUpdate string string string
  | EngineExecute string string
  | FileUnlink string
  | FileReplace string string

datatype error =
    SystemExit nat
  | CalledProcessError
  | FileNotFoundError
  | AttributeError
  | UnboundLocalError
  | KeyError

text \<open>
  \<open>queue\<close> is the table in insertion order; \<open>files\<close> maps the path of every regular
  file to its size in bytes; \<open>logs\<close> and \<open>calls\<close> grow at the end. When \<open>storage_ok\<close>
  is false every SQL statement raises \<open>sqlite3.Error\<close> (an error other than
  \<open>IntegrityError\<close>).
\<close>

record world =
  queue :: "queue_entry list"
  files :: "string \<rightharpoonup> nat"
  logs :: "(level \<times> string) list"
  calls :: "call list"
  storage_ok :: bool

text \<open>
  The external programs: the two exiftool probes give \<open>None\<close> when the process exits
  with a non-zero status (\<open>check = True\<close> then raises CalledProcessError) and the
  captured standard output otherwise; the engine is given the input path, the output
  path and the files, and returns whether it succeeded (\<open>False\<close> is FFmpegError) and
  the files it leaves.
\<close>

record tools =
  exiftool_compressor_id :: "string \<Rightarrow> string option"
  exiftool_doc_type :: "string \<Rightarrow> string option"
  ffmpeg_execute :: "string \<Rightarrow> string \<Rightarrow> (string \<rightharpoonup> nat) \<Rightarrow> bool \<times> (string \<rightharpoonup> nat)"

text \<open>
  A log record is its level and its message, with the f-strings rendered. Three
  records keep a replacement field as it is written in the source: the DEBUG record
  of \<open>update_status\<close> with the field \<open>status_update_data=\<close>, and the two INFO records
  with a number grouped by thousands (\<open>byte_size:,\<close> and \<open>diff_size:,\<close>).
\<close>

definition logger :: "level \<Rightarrow> string \<Rightarrow> world \<Rightarrow> world" where
  "logger lv msg w = w\<lparr>logs := logs w @ [(lv, msg)]\<rparr>"

definition quoted :: "string \<Rightarrow> string" where
  "quoted s = CHR 0x27 # s @ [CHR 0x27]"

text \<open>\<open>logger.exception(sqlite3.Error)\<close>: an ERROR record whose message is the class.\<close>

definition logger_exception :: "world \<Rightarrow> world" where
  "logger_exception w = logger ERROR (''<class '' @ quoted ''sqlite3.Error'' @ ''>'') w"

section \<open>The storage layer\<close>

text \<open>
  Modelled from the spec: the schema file and \<open>DatabaseInterface\<close> are not among the
  sources. The table \<open>queue\<close> has the text columns path, filename, transcode and status
  and a unique constraint on (path, filename); a statement that would break the
  constraint raises \<open>IntegrityError\<close> and changes nothing. Leaving the \<open>with\<close> block of
  \<open>DatabaseInterface\<close> makes the statements executed in it durable. A \<open>SELECT\<close> without
  \<open>ORDER BY\<close> returns rows in insertion order.

  \<open>executemany\<close> runs the \<open>INSERT\<close> once per parameter row and stops at the first row
  that raises; the boolean tells whether \<open>IntegrityError\<close> was raised.
\<close>

fun executemany_insert :: "queue_entry list \<Rightarrow> queue_entry list \<Rightarrow> queue_entry list \<times> bool" where
  "executemany_insert tbl [] = (tbl, False)"
| "executemany_insert tbl (r # rs) =
     (if entry_key r \<in> set (map entry_key tbl) then (tbl, True)
      else executemany_insert (tbl @ [r]) rs)"

definition insert_scan_results :: "queue_entry list \<Rightarrow> world \<Rightarrow> world \<times> (error + unit)" where
  "insert_scan_results insert_list w =
     (let w1 = logger DEBUG ''Inserting scanned results into SQLite database.'' w;
          insert_msg = ''Successfully inserted '' @ str_nat (length insert_list)
                       @ '' entries into SQLite '' @ quoted ''queue'' @ '' table.''
      in if \<not> storage_ok w1 then
           (logger INFO insert_msg
              (logger_exception (logger ERROR ''SQLite insert execution failed.'' w1)),
            Inl (SystemExit 1))
         else
           (case executemany_insert (queue w1) insert_list of
              (tbl, True) \<Rightarrow>
                (logger INFO insert_msg
                   (logger ERROR ''Duplicate filename found in SQLite table.''
                      (w1\<lparr>queue := tbl\<rparr>)),
                 Inr ())
            | (tbl, False) \<Rightarrow> (logger INFO insert_msg (w1\<lparr>queue := tbl\<rparr>), Inr ())))"

text \<open>\<open>UPDATE queue SET status = ? WHERE path = ? AND filename = ?\<close>\<close>

definition set_status :: "string \<Rightarrow> string \<Rightarrow> string \<Rightarrow> queue_entry list \<Rightarrow> queue_entry list" where
  "set_status path filename status tbl =
     map (\<lambda>r. if q_path r = path \<and> q_filename r = filename then r\<lparr>q_status := status\<rparr> else r) tbl"

definition update_status :: "string \<Rightarrow> string \<Rightarrow> string \<Rightarrow> world \<Rightarrow> world" where
  "update_status path filename status w =
     (if \<not> storage_ok w then
        logger_exception
          (logger ERROR ''SQLite transcode status update failed.''
             (logger DEBUG ''{status_update_data=}'' w))
      else
        logger INFO
          (''Updated status for '' @ quoted (path @ ''/'' @ filename) @ '' to ''
           @ quoted status @ ''.'')
          (w\<lparr>queue := set_status path filename status (queue w),
             calls := calls w @ [StatusUpdate path filename status]\<rparr>))"

text \<open>
  The \<open>LIMIT\<close> clause of SQLite: the operand is read as a signed 64-bit integer, and a
  statement whose operand does not fit fails with an error when it is run (\<open>None\<close>);
  a negative operand means no limit.
\<close>

definition sql_limit :: "int \<Rightarrow> queue_entry list \<Rightarrow> queue_entry list option" where
  "sql_limit n rows =
     (if n < - (2 ^ 63) \<or> 2 ^ 63 \<le> n then None
      else if n < 0 then Some rows
      else Some (take (nat n) rows))"

text \<open>
  \<open>get_batch\<close>: the limit is resolved from the text of the environment variable
  \<open>BATCH\<close>; \<open>if limit:\<close> adds the \<open>LIMIT\<close> clause for a limit that is neither \<open>None\<close> nor 0.
  Every \<open>sqlite3.Error\<close> of the query, also the one for a refused \<open>LIMIT\<close>, is logged
  and ends the process.
\<close>

definition resolve_limit :: "string \<Rightarrow> world \<Rightarrow> world \<times> int option" where
  "resolve_limit BATCH w =
     (case py_int BATCH of
        None \<Rightarrow>
          (logger INFO ''Setting batch to unlimited.''
             (logger ERROR (''BATCH is not an integer. BATCH='' @ py_repr BATCH @ ''.'') w),
           None)
      | Some batch \<Rightarrow>
          if batch = 0 then (logger INFO ''Batch is 0; unlimited.'' w, None)
          else if batch > 0 then
            (logger INFO (''Setting batch limit to '' @ str_int batch @ ''.'') w, Some batch)
          else if batch < 0 then
            (logger INFO (''Batch is '' @ quoted (str_int batch) @ ''. Setting to unlimited.'')
               (logger WARNING (''batch='' @ str_int batch
                                @ ''. BATCH variable must be a positive number.'') w),
             None)
          else (w, None))"

definition get_batch :: "string \<Rightarrow> world \<Rightarrow> world \<times> (error + (string \<times> string) list)" where
  "get_batch BATCH w =
     (case resolve_limit BATCH w of
        (w1, limit) \<Rightarrow>
          (let selected = filter (\<lambda>r. q_transcode r = ''Y'' \<and> q_status r = ''queued'') (queue w1);
               batch_result =
                 (if \<not> storage_ok w1 then None
                  else case limit of
                         None \<Rightarrow> Some selected
                       | Some n \<Rightarrow> if n \<noteq> 0 then sql_limit n selected else Some selected)
           in case batch_result of
                None \<Rightarrow>
                  (logger_exception
                     (logger ERROR ''SQLite transcode selection query failed.'' w1),
                   Inl (SystemExit 1))
              | Some batch_queue \<Rightarrow>
                  (logger INFO ''Successfully retrieved batch of files to transcode.'' w1,
                   Inr (map entry_key batch_queue))))"

text \<open>
  \<open>retry_failed\<close>: when the query raises, the error is logged and
  \<open>failed_status_data\<close> is never bound, so reading it raises UnboundLocalError.
\<close>

definition retry_failed :: "world \<Rightarrow> world \<times> (error + (string \<times> string) list)" where
  "retry_failed w =
     (if \<not> storage_ok w then
        (logger_exception (logger ERROR ''SQLite status query failed.'' w),
         Inl UnboundLocalError)
      else
        (let failed_status_data = map entry_key (filter (\<lambda>r. q_status r = ''failed'') (queue w))
         in if failed_status_data \<noteq> [] then
              (logger INFO (''Found '' @ str_nat (length failed_status_data)
                            @ '' failed transcoding(s).'') w,
               Inr failed_status_data)
            else (logger INFO ''No failed transcodings.'' w, Inr failed_status_data)))"

section \<open>The reporter: \<open>final_results\<close>\<close>

text \<open>
  \<open>SELECT status, COUNT(status) FROM queue GROUP BY status\<close>: one pair for every
  status that occurs in the table. The pairs have distinct statuses, so the order in
  which they are written into the dictionary does not matter.
\<close>

definition status_query :: "queue_entry list \<Rightarrow> (string \<times> nat) list" where
  "status_query tbl =
     map (\<lambda>s. (s, length (filter (\<lambda>r. q_status r = s) tbl))) (remdups (map q_status tbl))"

definition failed_query :: "queue_entry list \<Rightarrow> (string \<times> string) list" where
  "failed_query tbl = map entry_key (filter (\<lambda>r. q_status r = ''failed'') tbl)"

definition initial_states :: "string \<rightharpoonup> nat" where
  "initial_states =
     [''done'' \<mapsto> 0, ''failed'' \<mapsto> 0, ''queued'' \<mapsto> 0, ''skipped'' \<mapsto> 0, ''unknown'' \<mapsto> 0]"

text \<open>\<open>for values in status_data: states[values[0]] = values[1]\<close>\<close>

definition tally :: "(string \<times> nat) list \<Rightarrow> (string \<rightharpoonup> nat) \<Rightarrow> (string \<rightharpoonup> nat)" where
  "tally status_data states = foldl (\<lambda>m (s, n). m(s \<mapsto> n)) states status_data"

definition bind_result :: "error + 'a \<Rightarrow> ('a \<Rightarrow> error + 'b) \<Rightarrow> error + 'b" where
  "bind_result r f = (case r of Inl e \<Rightarrow> Inl e | Inr x \<Rightarrow> f x)"

definition getitem :: "(string \<rightharpoonup> nat) \<Rightarrow> string \<Rightarrow> error + nat" where
  "getitem states k = (case states k of None \<Rightarrow> Inl KeyError | Some n \<Rightarrow> Inr n)"

definition final_count_msg :: "(string \<rightharpoonup> nat) \<Rightarrow> error + string" where
  "final_count_msg states =
     bind_result (getitem states ''done'') (\<lambda>d.
     bind_result (getitem states ''failed'') (\<lambda>f.
     bind_result (getitem states ''queued'') (\<lambda>q.
     bind_result (getitem states ''skipped'') (\<lambda>s.
     bind_result (getitem states ''unknown'') (\<lambda>u.
       Inr (str_nat d @ '' done, '' @ str_nat f @ '' failed, '' @ str_nat q @ '' queued, ''
            @ str_nat s @ '' skipped, '' @ str_nat u @ '' unknown.''))))))"

definition final_results :: "world \<Rightarrow> world \<times> (error + unit)" where
  "final_results w =
     (if \<not> storage_ok w then
        (logger_exception (logger ERROR ''SQLite status query failed.'' w),
         Inl UnboundLocalError)
      else
        (let status_data = status_query (queue w);
             failed_data = failed_query (queue w);
             states = tally status_data initial_states
         in case final_count_msg states of
              Inl e \<Rightarrow> (w, Inl e)
            | Inr msg \<Rightarrow>
                (foldl (\<lambda>w' (path, filename).
                          logger INFO (''Failed to transcode ''
                                       @ quoted (path @ ''/'' @ filename) @ ''.'') w')
                       (logger INFO msg w) failed_data,
                 Inr ())))"

section \<open>The classifier: \<open>verify_metadata\<close> and \<open>read_metadata\<close>\<close>

text \<open>
  \<open>verify_metadata\<close> runs the probe outside any \<open>try\<close>: a failing probe raises
  CalledProcessError to the caller.
\<close>

definition verify_metadata :: "tools \<Rightarrow> string \<Rightarrow> world \<Rightarrow> world \<times> (error + string \<times> string)" where
  "verify_metadata env filename w =
     (case exiftool_doc_type env filename of
        None \<Rightarrow> (w, Inl CalledProcessError)
      | Some out \<Rightarrow>
          (let file_type = py_strip (py_lower out) in
           if file_type = ''matroska'' then
             (logger WARNING (quoted filename
                              @ '' is MKV file type, not MP4. Queued for transcoding.'') w,
              Inr (''Y'', ''queued''))
           else
             (logger ERROR (quoted filename @ '' is '' @ quoted file_type
                            @ '' type. Status is unknown.'') w,
              Inr (''N'', ''unknown''))))"

text \<open>
  \<open>read_metadata\<close>: only the first probe is inside the \<open>try\<close>; the call of
  \<open>verify_metadata\<close> is in the \<open>else\<close> branch, which the \<open>except\<close> clause does not cover.
\<close>

definition read_metadata ::
  "tools \<Rightarrow> string \<Rightarrow> string \<Rightarrow> world \<Rightarrow> world \<times> (error + string \<times> string \<times> string)" where
  "read_metadata env path filename w =
     (let video_file = path @ ''/'' @ filename in
      case exiftool_compressor_id env video_file of
        None \<Rightarrow>
          (logger ERROR (quoted video_file @ '' is not a not a video file. Verify file type.'') w,
           Inr (filename, ''N'', ''unknown''))
      | Some out \<Rightarrow>
          (let compressor_metadata = py_strip (py_lower out) in
           if compressor_metadata = ''hvc1'' then
             (logger INFO (quoted video_file @ '' is already transcoded.'') w,
              Inr (filename, ''N'', ''skipped''))
           else if compressor_metadata = [] then
             (case verify_metadata env video_file
                     (logger WARNING (quoted video_file
                        @ '' returned empty Compressor ID. Verifying video integrity.'') w) of
                (w1, Inl e) \<Rightarrow> (w1, Inl e)
              | (w1, Inr (transcode_flag, status)) \<Rightarrow> (w1, Inr (filename, transcode_flag, status)))
           else
             (logger INFO (quoted video_file @ '' needs to be transcoded.'') w,
              Inr (filename, ''Y'', ''queued''))))"

section \<open>The scanner: \<open>scan_directory\<close>\<close>

text \<open>
  \<open>os.walk\<close> is given as the list of its (root, files) pairs. The first loop collects
  the (root, filename) pairs whose filename has a video extension.
\<close>

definition video_files :: "(string \<times> string list) list \<Rightarrow> (string \<times> string) list" where
  "video_files walk =
     concat (map (\<lambda>(root, fs).
               map (\<lambda>filename. (root, filename))
                   (filter (\<lambda>filename. endswith filename ''.mkv'' \<or> endswith filename ''.mp4'') fs))
             walk)"

text \<open>The second loop: classify every video file and build the rows to insert.\<close>

fun classify_videos ::
  "tools \<Rightarrow> (string \<times> string) list \<Rightarrow> queue_entry list \<Rightarrow> world
   \<Rightarrow> world \<times> (error + queue_entry list)" where
  "classify_videos env [] queue_list w = (w, Inr queue_list)"
| "classify_videos env ((path, filename) # rest) queue_list w =
     (if endswith filename ''.mkv'' then
        classify_videos env rest
          (queue_list @ [\<lparr>q_path = path, q_filename = filename,
                          q_transcode = ''Y'', q_status = ''queued''\<rparr>])
          (logger INFO (quoted (path @ ''/'' @ filename) @ '' needs to be transcoded.'') w)
      else
        (case read_metadata env path filename w of
           (w1, Inl e) \<Rightarrow> (w1, Inl e)
         | (w1, Inr (filename', transcode_flag, status)) \<Rightarrow>
             classify_videos env rest
               (queue_list @ [\<lparr>q_path = path, q_filename = filename',
                               q_transcode = transcode_flag, q_status = status\<rparr>])
               w1))"

definition scan_directory :: "tools \<Rightarrow> (string \<times> string list) list \<Rightarrow> world \<Rightarrow> world \<times> (error + unit)" where
  "scan_directory env walk w =
     (let video_list = video_files walk;
          w1 = foldl (\<lambda>w' (root, filename).
                        logger INFO (''Found '' @ quoted (root @ ''/'' @ filename) @ ''.'') w')
                     (logger INFO ''Beginning scan...'' w) video_list;
          w2 = logger INFO (''Scan complete. Found '' @ str_nat (length video_list)
                            @ '' video file(s).'') w1
      in if length video_list = 0 then
           (logger WARNING ''Empty scan results. Is the volume mounted? Exiting.'' w2,
            Inl (SystemExit 1))
         else
           (case classify_videos env video_list []
                   (logger DEBUG ''Checking metadata on video files.'' w2) of
              (w3, Inl e) \<Rightarrow> (w3, Inl e)
            | (w3, Inr queue_list) \<Rightarrow> insert_scan_results queue_list w3))"

section \<open>The orchestrator: \<open>Transcode.transcode\<close>, \<open>delete_original\<close>, \<open>transcode_queue\<close>\<close>

text \<open>
  \<open>Path.unlink\<close> and \<open>Path.replace\<close> raise FileNotFoundError when the file they act on
  does not exist; \<open>replace\<close> renames over an existing target.
\<close>

definition unlink :: "string \<Rightarrow> world \<Rightarrow> world \<times> (error + unit)" where
  "unlink p w =
     (case files w p of
        None \<Rightarrow> (w, Inl FileNotFoundError)
      | Some _ \<Rightarrow> (w\<lparr>files := (files w)(p := None), calls := calls w @ [FileUnlink p]\<rparr>, Inr ()))"

definition replace_file :: "string \<Rightarrow> string \<Rightarrow> world \<Rightarrow> world \<times> (error + unit)" where
  "replace_file src dst w =
     (case files w src of
        None \<Rightarrow> (w, Inl FileNotFoundError)
      | Some sz \<Rightarrow>
          (w\<lparr>files := ((files w)(src := None))(dst \<mapsto> sz),
             calls := calls w @ [FileReplace src dst]\<rparr>,
           Inr ()))"

text \<open>
  \<open>get_file_size\<close>: \<open>stat\<close> raises FileNotFoundError for a missing file. The size in GB
  or MB is the truncated floating-point quotient, which is the integer quotient for
  every size below \<open>2 ^ 53\<close>.
\<close>

definition get_file_size :: "string \<Rightarrow> world \<Rightarrow> world \<times> (error + nat)" where
  "get_file_size filename w =
     (case files w filename of
        None \<Rightarrow> (w, Inl FileNotFoundError)
      | Some byte_size \<Rightarrow>
          (let gigabyte = 1073741824;
               megabyte = 1048576;
               human_size_msg =
                 (if byte_size \<ge> gigabyte then
                    quoted filename @ '' is '' @ str_nat (byte_size div (1024 * 1024 * 1024)) @ ''GB.''
                  else if byte_size \<ge> megabyte then
                    quoted filename @ '' is '' @ str_nat (byte_size div (1024 * 1024)) @ ''MB.''
                  else quoted filename @ '' is {byte_size:,}B.'')
           in (logger INFO human_size_msg w, Inr byte_size)))"

text \<open>
  \<open>transcode\<close>: the status is written as \<open>active\<close> first. Building the engine command
  reads \<open>output_file\<close> and \<open>video_title\<close>, which raises AttributeError when they were
  never set. The \<open>finally\<close> clause writes the final status on every path out of the
  \<open>try\<close> statement, also when \<open>unlink\<close> or \<open>get_file_size\<close> raises.
\<close>

definition transcode :: "tools \<Rightarrow> transcode_job \<Rightarrow> world \<Rightarrow> world \<times> (error + string)" where
  "transcode env t w =
     (let w1 = update_status (t_path t) (t_filename t) ''active'' w in
      case output_file t of
        None \<Rightarrow> (w1, Inl AttributeError)
      | Some out \<Rightarrow>
     (case video_title t of
        None \<Rightarrow> (w1, Inl AttributeError)
      | Some title \<Rightarrow>
          (let w2 = logger INFO (''Transcoding '' @ quoted (input_file t) @ '' to ''
                                 @ quoted out @ ''.'') w1;
               (ok, fs') = ffmpeg_execute env (input_file t) out (files w2);
               w3 = w2\<lparr>files := fs', calls := calls w2 @ [EngineExecute (input_file t) out]\<rparr>
           in if \<not> ok then
                (let w4 = logger ERROR (''Failed to transcode '' @ quoted (input_file t)) w3 in
                 if files w4 out \<noteq> None then
                   (case unlink out (logger DEBUG ''Removing the failed output file.'' w4) of
                      (w5, Inl e) \<Rightarrow>
                        (update_status (t_path t) (t_filename t) ''failed'' w5, Inl e)
                    | (w5, Inr _) \<Rightarrow>
                        (update_status (t_path t) (t_filename t) ''failed''
                           (logger DEBUG ''Removed output file.'' w5),
                         Inr ''failed''))
                 else
                   (update_status (t_path t) (t_filename t) ''failed''
                      (logger DEBUG (''Nothing to remove. '' @ quoted out @ '' not found.'') w4),
                    Inr ''failed''))
              else
                (case get_file_size (input_file t)
                        (logger INFO (quoted (input_file t) @ '' transcoded successfully.'') w3) of
                   (w5, Inl e) \<Rightarrow> (update_status (t_path t) (t_filename t) ''done'' w5, Inl e)
                 | (w5, Inr input_size) \<Rightarrow>
                (case get_file_size out w5 of
                   (w6, Inl e) \<Rightarrow> (update_status (t_path t) (t_filename t) ''done'' w6, Inl e)
                 | (w6, Inr output_size) \<Rightarrow>
                     (update_status (t_path t) (t_filename t) ''done''
                        (logger INFO ''Recovered {diff_size:,} bytes in trandcoding.'' w6),
                      Inr ''done''))))))"

text \<open>
  \<open>delete_original\<close>: when the input file ends in neither extension, \<open>cleanup_msg\<close> is
  never bound and the last line raises UnboundLocalError.
\<close>

definition delete_original :: "transcode_job \<Rightarrow> world \<Rightarrow> world \<times> (error + unit)" where
  "delete_original t w =
     (if endswith (input_file t) ''.mkv'' then
        (case unlink (input_file t) w of
           (w1, Inl e) \<Rightarrow> (w1, Inl e)
         | (w1, Inr _) \<Rightarrow> (logger INFO (''Deleted '' @ quoted (input_file t) @ ''.'') w1, Inr ()))
      else if endswith (input_file t) ''.mp4'' then
        (case output_file t of
           None \<Rightarrow> (w, Inl AttributeError)
         | Some out \<Rightarrow>
             (case replace_file out (input_file t) w of
                (w1, Inl e) \<Rightarrow> (w1, Inl e)
              | (w1, Inr _) \<Rightarrow>
                  (logger INFO (''Renamed '' @ quoted out @ '' to ''
                                @ quoted (input_file t) @ ''.'') w1,
                   Inr ())))
      else (w, Inl UnboundLocalError))"

text \<open>\<open>DELETE\<close> is the run-wide flag read from the environment.\<close>

fun transcode_queue ::
  "tools \<Rightarrow> bool \<Rightarrow> (string \<times> string) list \<Rightarrow> world \<Rightarrow> world \<times> (error + unit)" where
  "transcode_queue env DELETE [] w = (w, Inr ())"
| "transcode_queue env DELETE ((path, filename) # rest) w =
     (let video_file = Transcode path filename in
      case transcode env video_file w of
        (w1, Inl e) \<Rightarrow> (w1, Inl e)
      | (w1, Inr transcode_video) \<Rightarrow>
          if transcode_video = ''done'' \<and> DELETE then
            (case delete_original video_file w1 of
               (w2, Inl e) \<Rightarrow> (w2, Inl e)
             | (w2, Inr _) \<Rightarrow> transcode_queue env DELETE rest w2)
          else transcode_queue env DELETE rest w1)"

section \<open>States reachable by running the operations\<close>

text \<open>
  Modelled from the spec: the entry point that calls the functions of tasks.py is not
  among the sources. Following the data flow of the specification, a run starts on an
  empty table; the scanner inserts its rows; the orchestrator is given the result of
  batch selection or of retry selection and processes it; the reporter reads the
  table. Between two operations the files and the health of the storage may change
  in any way. A run that stops with an error leaves the world it reached.
\<close>

inductive reachable :: "world \<Rightarrow> bool" where
  start: "reachable \<lparr>queue = [], files = fs, logs = [], calls = [], storage_ok = ok\<rparr>"
| surroundings: "reachable w \<Longrightarrow> reachable (w\<lparr>files := fs, storage_ok := ok\<rparr>)"
| scan: "reachable w \<Longrightarrow> reachable (fst (scan_directory env walk w))"
| select_batch: "reachable w \<Longrightarrow> reachable (fst (get_batch BATCH w))"
| select_retry: "reachable w \<Longrightarrow> reachable (fst (retry_failed w))"
| run_batch:
    "reachable w \<Longrightarrow> get_batch BATCH w = (w1, Inr batch_queue)
     \<Longrightarrow> reachable (fst (transcode_queue env DELETE batch_queue w1))"
| run_retry:
    "reachable w \<Longrightarrow> retry_failed w = (w1, Inr failed_queue)
     \<Longrightarrow> reachable (fst (transcode_queue env DELETE failed_queue w1))"
| report: "reachable w \<Longrightarrow> reachable (fst (final_results w))"

section \<open>Concrete inputs\<close>

text \<open>
  A table with one row for each kind of entry, a world around it, and external
  programs with fixed behaviour. They are used to run the functions on explicit
  inputs.
\<close>

definition example_table :: "queue_entry list" where
  "example_table =
     [\<lparr>q_path = ''/mnt'', q_filename = ''movie.mkv'', q_transcode = ''Y'', q_status = ''queued''\<rparr>,
      \<lparr>q_path = ''/mnt'', q_filename = ''clip.mp4'', q_transcode = ''N'', q_status = ''skipped''\<rparr>,
      \<lparr>q_path = ''/mnt'', q_filename = ''a.mp4'', q_transcode = ''Y'', q_status = ''failed''\<rparr>,
      \<lparr>q_path = ''/mnt'', q_filename = ''b.mkv'', q_transcode = ''Y'', q_status = ''done''\<rparr>,
      \<lparr>q_path = ''/mnt'', q_filename = ''c.mkv'', q_transcode = ''Y'', q_status = ''active''\<rparr>,
      \<lparr>q_path = ''/mnt'', q_filename = ''d.mp4'', q_transcode = ''N'', q_status = ''unknown''\<rparr>,
      \<lparr>q_path = ''/mnt'', q_filename = ''e.mkv'', q_transcode = ''Y'', q_status = ''queued''\<rparr>,
      \<lparr>q_path = ''/mnt'', q_filename = ''f.mp4'', q_transcode = ''Y'', q_status = ''queued''\<rparr>,
      \<lparr>q_path = ''/mnt'', q_filename = ''g.mkv'', q_transcode = ''Y'', q_status = ''queued''\<rparr>]"

definition example_world :: world where
  "example_world =
     \<lparr>queue = example_table,
      files = [''/mnt/movie.mkv'' \<mapsto> 700, ''/mnt/a.mp4'' \<mapsto> 500],
      logs = [], calls = [], storage_ok = True\<rparr>"

definition empty_world :: world where
  "empty_world = \<lparr>queue = [], files = Map.empty, logs = [], calls = [], storage_ok = True\<rparr>"

definition movie_row :: queue_entry where
  "movie_row = \<lparr>q_path = ''/mnt'', q_filename = ''movie.mkv'', q_transcode = ''Y'', q_status = ''queued''\<rparr>"

definition clip_row :: queue_entry where
  "clip_row = \<lparr>q_path = ''/mnt'', q_filename = ''clip.mp4'', q_transcode = ''N'', q_status = ''skipped''\<rparr>"

definition new_row :: queue_entry where
  "new_row = \<lparr>q_path = ''/mnt/new'', q_filename = ''n.mkv'', q_transcode = ''Y'', q_status = ''queued''\<rparr>"

text \<open>
  External programs whose first probe prints nothing and whose second probe exits
  with a non-zero status; the engine succeeds and writes an output of 300 bytes.
\<close>

definition second_probe_fails :: tools where
  "second_probe_fails =
     \<lparr>exiftool_compressor_id = (\<lambda>f. Some []),
      exiftool_doc_type = (\<lambda>f. None),
      ffmpeg_execute = (\<lambda>inp out fs. (True, fs(out \<mapsto> 300)))\<rparr>"

text \<open>
  External programs whose first probe reports the tag \<open>hvc1\<close> and whose engine fails
  and leaves a partial output of 10 bytes.
\<close>

definition engine_fails :: tools where
  "engine_fails =
     \<lparr>exiftool_compressor_id = (\<lambda>f. Some ''hvc1''),
      exiftool_doc_type = (\<lambda>f. Some []),
      ffmpeg_execute = (\<lambda>inp out fs. (False, fs(out \<mapsto> 10)))\<rparr>"

text \<open>
  A run on these programs: the scan of a directory holding \<open>movie.mkv\<close> and
  \<open>clip.mp4\<close>, then an unlimited batch whose transcoding fails.
\<close>

definition scanned_world :: world where
  "scanned_world =
     fst (scan_directory engine_fails [(''/mnt'', [''movie.mkv'', ''clip.mp4''])] empty_world)"

definition failed_world :: world where
  "failed_world =
     fst (transcode_queue engine_fails False [(''/mnt'', ''movie.mkv'')]
            (fst (get_batch ''0'' scanned_world)))"

section \<open>The invariant of the queue table\<close>

text \<open>
  The key (path, filename) is unique, and a row that is not marked for transcoding
  has one of the two statuses the classifier gives such rows.
\<close>

definition table_ok :: "queue_entry list \<Rightarrow> bool" where
  "table_ok tbl \<longleftrightarrow>
     distinct (map entry_key tbl)
     \<and> (\<forall>r \<in> set tbl. q_transcode r = ''Y'' \<or> q_status r = ''skipped'' \<or> q_status r = ''unknown'')"

text \<open>Every row with the key \<open>k\<close> is marked for transcoding.\<close>

definition marked_key :: "queue_entry list \<Rightarrow> string \<times> string \<Rightarrow> bool" where
  "marked_key tbl k \<longleftrightarrow> (\<forall>r \<in> set tbl. entry_key r = k \<longrightarrow> q_transcode r = ''Y'')"

section \<open>Properties\<close>

subsection \<open>Projections of the world after logging and selection\<close>

lemma logger_fields [simp]:
  "queue (logger lv msg w) = queue w"
  "files (logger lv msg w) = files w"
  "calls (logger lv msg w) = calls w"
  "storage_ok (logger lv msg w) = storage_ok w"
  "logs (logger lv msg w) = logs w @ [(lv, msg)]"
  by (simp_all add: logger_def)

lemma logger_exception_fields [simp]:
  "queue (logger_exception w) = queue w"
  "files (logger_exception w) = files w"
  "calls (logger_exception w) = calls w"
  "storage_ok (logger_exception w) = storage_ok w"
  by (simp_all add: logger_exception_def)

lemma resolve_limit_fields [simp]:
  "queue (fst (resolve_limit BATCH w)) = queue w"
  "files (fst (resolve_limit BATCH w)) = files w"
  "calls (fst (resolve_limit BATCH w)) = calls w"
  "storage_ok (fst (resolve_limit BATCH w)) = storage_ok w"
  by (simp_all add: resolve_limit_def split: option.splits)

lemma key_determines_row:
  assumes "distinct (map entry_key tbl)" "r \<in> set tbl" "r' \<in> set tbl" "entry_key r = entry_key r'"
  shows "r = r'"
  using assms by (meson distinct_map inj_onD)

subsection \<open>Retry selection\<close>

lemma retry_failed_result:
  "storage_ok w \<Longrightarrow>
   snd (retry_failed w) = Inr (map entry_key (filter (\<lambda>r. q_status r = ''failed'') (queue w)))"
  by (simp add: retry_failed_def Let_def)

lemma retry_failed_fields [simp]:
  "queue (fst (retry_failed w)) = queue w"
  "files (fst (retry_failed w)) = files w"
  "calls (fst (retry_failed w)) = calls w"
  "storage_ok (fst (retry_failed w)) = storage_ok w"
  by (simp_all add: retry_failed_def Let_def)

text \<open>
  C8. With a working storage, retry selection returns the (path, filename) of
  exactly the rows whose status is \<open>failed\<close>, in table order, and leaves the table as
  it is. Since (path, filename) is a unique key, a row of the table is named by the
  result if and only if its status is \<open>failed\<close>: rows that are skipped, unknown,
  done, queued or active are not selected.
\<close>

theorem retry_failed_exact:
  assumes "storage_ok w" and "distinct (map entry_key (queue w))"
  shows "\<exists>w' q. retry_failed w = (w', Inr q)
           \<and> q = map entry_key (filter (\<lambda>r. q_status r = ''failed'') (queue w))
           \<and> queue w' = queue w
           \<and> (\<forall>r \<in> set (queue w). entry_key r \<in> set q \<longleftrightarrow> q_status r = ''failed'')"
proof -
  let ?q = "map entry_key (filter (\<lambda>r. q_status r = ''failed'') (queue w))"
  have res: "retry_failed w = (fst (retry_failed w), Inr ?q)"
    using retry_failed_result [OF assms(1)] by (metis prod.collapse)
  have iff: "entry_key r \<in> set ?q \<longleftrightarrow> q_status r = ''failed''" if r: "r \<in> set (queue w)" for r
  proof
    assume "entry_key r \<in> set ?q"
    then obtain r' where r': "r' \<in> set (queue w)" "q_status r' = ''failed''" "entry_key r' = entry_key r"
      by auto
    then have "r' = r" using key_determines_row [OF assms(2) r'(1) r] by simp
    with r' show "q_status r = ''failed''" by simp
  next
    assume "q_status r = ''failed''"
    with r show "entry_key r \<in> set ?q" by auto
  qed
  show ?thesis
    using res iff retry_failed_fields(1) by blast
qed

subsection \<open>The final summary\<close>

lemma tally_lookup:
  "tally (map (\<lambda>s. (s, g s)) xs) m k = (if k \<in> set xs then Some (g k) else m k)"
  unfolding tally_def
  by (induction xs arbitrary: m) auto

lemma tally_status_query:
  "tally (status_query tbl) m k =
     (if k \<in> q_status ` set tbl then Some (length (filter (\<lambda>r. q_status r = k) tbl)) else m k)"
  unfolding status_query_def by (simp add: tally_lookup)

lemma count_absent:
  "k \<notin> q_status ` set tbl \<Longrightarrow> length (filter (\<lambda>r. q_status r = k) tbl) = 0"
  by (auto simp: filter_empty_conv)

lemma getitem_tally:
  "k \<in> {''done'', ''failed'', ''queued'', ''skipped'', ''unknown''} \<Longrightarrow>
   getitem (tally (status_query tbl) initial_states) k =
     Inr (length (filter (\<lambda>r. q_status r = k) tbl))"
  unfolding getitem_def tally_status_query
  using count_absent [of k tbl]
  by (auto simp: initial_states_def)

lemma final_count_msg_tally:
  "final_count_msg (tally (status_query tbl) initial_states) =
     Inr (str_nat (length (filter (\<lambda>r. q_status r = ''done'') tbl)) @ '' done, ''
          @ str_nat (length (filter (\<lambda>r. q_status r = ''failed'') tbl)) @ '' failed, ''
          @ str_nat (length (filter (\<lambda>r. q_status r = ''queued'') tbl)) @ '' queued, ''
          @ str_nat (length (filter (\<lambda>r. q_status r = ''skipped'') tbl)) @ '' skipped, ''
          @ str_nat (length (filter (\<lambda>r. q_status r = ''unknown'') tbl)) @ '' unknown.'')"
  unfolding final_count_msg_def
  by (simp add: getitem_tally bind_result_def)

lemma failed_lines_logs:
  "logs (foldl (\<lambda>w' (path, filename). logger INFO (f path filename) w') w xs)
     = logs w @ map (\<lambda>(path, filename). (INFO, f path filename)) xs"
  by (induction xs arbitrary: w) auto

lemma failed_lines_queue [simp]:
  "queue (foldl (\<lambda>w' (path, filename). logger INFO (f path filename) w') w xs) = queue w"
  by (induction xs arbitrary: w) (simp_all split: prod.splits)

lemma failed_lines_files [simp]:
  "files (foldl (\<lambda>w' (path, filename). logger INFO (f path filename) w') w xs) = files w"
  by (induction xs arbitrary: w) (simp_all split: prod.splits)

lemma failed_lines_calls [simp]:
  "calls (foldl (\<lambda>w' (path, filename). logger INFO (f path filename) w') w xs) = calls w"
  by (induction xs arbitrary: w) (simp_all split: prod.splits)

lemma failed_lines_storage_ok [simp]:
  "storage_ok (foldl (\<lambda>w' (path, filename). logger INFO (f path filename) w') w xs)
     = storage_ok w"
  by (induction xs arbitrary: w) (simp_all split: prod.splits)

lemma final_results_logs:
  assumes "storage_ok w"
  shows "logs (fst (final_results w)) =
           logs w
           @ [(INFO,
               str_nat (length (filter (\<lambda>r. q_status r = ''done'') (queue w))) @ '' done, ''
               @ str_nat (length (filter (\<lambda>r. q_status r = ''failed'') (queue w))) @ '' failed, ''
               @ str_nat (length (filter (\<lambda>r. q_status r = ''queued'') (queue w))) @ '' queued, ''
               @ str_nat (length (filter (\<lambda>r. q_status r = ''skipped'') (queue w))) @ '' skipped, ''
               @ str_nat (length (filter (\<lambda>r. q_status r = ''unknown'') (queue w))) @ '' unknown.'')]
           @ map (\<lambda>(path, filename).
                    (INFO, ''Failed to transcode '' @ quoted (path @ ''/'' @ filename) @ ''.''))
               (map entry_key (filter (\<lambda>r. q_status r = ''failed'') (queue w)))"
  using assms
  by (simp add: final_results_def Let_def final_count_msg_tally failed_lines_logs failed_query_def)

lemma final_results_fields [simp]:
  "queue (fst (final_results w)) = queue w"
  "files (fst (final_results w)) = files w"
  "calls (fst (final_results w)) = calls w"
  "storage_ok (fst (final_results w)) = storage_ok w"
  by (simp_all add: final_results_def Let_def final_count_msg_tally)

subsection \<open>The selections on the example table\<close>

lemma example_world_fields:
  "storage_ok example_world" "queue example_world = example_table"
  by (simp_all add: example_world_def)

theorem retry_failed_exact_witness:
  "storage_ok example_world \<and> distinct (map entry_key (queue example_world))
   \<and> snd (retry_failed example_world) = Inr [(''/mnt'', ''a.mp4'')]"
  using retry_failed_exact [of example_world]
  by (auto simp: example_world_def example_table_def entry_key_def)

text \<open>
  C10. With a working storage the reporter returns normally and logs one summary
  line followed by one line for every failed row. The summary holds the number of
  rows with status \<open>done\<close>, \<open>failed\<close>, \<open>queued\<close>, \<open>skipped\<close> and \<open>unknown\<close>, in this
  order, zero for a status that does not occur, and nothing else: a row with any
  other status, such as \<open>active\<close>, changes neither the summary nor the lines after it.
\<close>

theorem final_results_summary:
  assumes "storage_ok w"
  shows "snd (final_results w) = Inr ()
       \<and> logs (fst (final_results w)) =
           logs w
           @ [(INFO,
               str_nat (length (filter (\<lambda>r. q_status r = ''done'') (queue w))) @ '' done, ''
               @ str_nat (length (filter (\<lambda>r. q_status r = ''failed'') (queue w))) @ '' failed, ''
               @ str_nat (length (filter (\<lambda>r. q_status r = ''queued'') (queue w))) @ '' queued, ''
               @ str_nat (length (filter (\<lambda>r. q_status r = ''skipped'') (queue w))) @ '' skipped, ''
               @ str_nat (length (filter (\<lambda>r. q_status r = ''unknown'') (queue w))) @ '' unknown.'')]
           @ map (\<lambda>(path, filename).
                    (INFO, ''Failed to transcode '' @ quoted (path @ ''/'' @ filename) @ ''.''))
               (map entry_key (filter (\<lambda>r. q_status r = ''failed'') (queue w)))
       \<and> (\<forall>r. q_status r \<notin> {''done'', ''failed'', ''queued'', ''skipped'', ''unknown''} \<longrightarrow>
              logs (fst (final_results (w\<lparr>queue := queue w @ [r]\<rparr>)))
                = logs (fst (final_results w)))"
proof -
  have ok: "snd (final_results w) = Inr ()"
    using assms by (simp add: final_results_def Let_def final_count_msg_tally)
  have same: "logs (fst (final_results (w\<lparr>queue := queue w @ [r]\<rparr>))) = logs (fst (final_results w))"
    if "q_status r \<notin> {''done'', ''failed'', ''queued'', ''skipped'', ''unknown''}" for r
  proof -
    have "storage_ok (w\<lparr>queue := queue w @ [r]\<rparr>)" using assms by simp
    from final_results_logs [OF this] final_results_logs [OF assms] that
    show ?thesis by simp
  qed
  show ?thesis
    using ok final_results_logs [OF assms] same by blast
qed

lemma str_nat_small:
  "str_nat 0 = ''0''" "str_nat 1 = ''1''" "str_nat (Suc 0) = ''1''" "str_nat 4 = ''4''"
  "str_nat (Suc (Suc (Suc (Suc 0)))) = ''4''"
  by (simp_all add: str_nat.simps digit_char_def)

theorem final_results_summary_witness:
  "storage_ok example_world
   \<and> length (filter (\<lambda>r. q_status r = ''active'') (queue example_world)) = 1
   \<and> snd (final_results example_world) = Inr ()
   \<and> logs (fst (final_results example_world)) =
       [(INFO, ''1 done, 1 failed, 4 queued, 1 skipped, 1 unknown.''),
        (INFO, ''Failed to transcode '' @ quoted ''/mnt/a.mp4'' @ ''.'')]"
proof -
  have ok: "storage_ok example_world"
    by (simp add: example_world_def)
  note summary = final_results_summary [OF ok]
  have active: "length (filter (\<lambda>r. q_status r = ''active'') (queue example_world)) = 1"
    by (simp add: example_world_def example_table_def)
  have lines: "logs (fst (final_results example_world)) =
       [(INFO, ''1 done, 1 failed, 4 queued, 1 skipped, 1 unknown.''),
        (INFO, ''Failed to transcode '' @ quoted ''/mnt/a.mp4'' @ ''.'')]"
    unfolding summary [THEN conjunct2, THEN conjunct1]
    by (simp add: example_world_def example_table_def entry_key_def str_nat_small)
  show ?thesis
    using ok active summary [THEN conjunct1] lines by simp
qed

subsection \<open>The classifier\<close>

lemma read_metadata_decision_table:
  "(exiftool_compressor_id env (path @ ''/'' @ filename) = None \<longrightarrow>
      snd (read_metadata env path filename w) = Inr (filename, ''N'', ''unknown''))
   \<and> (\<forall>out. exiftool_compressor_id env (path @ ''/'' @ filename) = Some out
          \<and> py_strip (py_lower out) = ''hvc1'' \<longrightarrow>
      snd (read_metadata env path filename w) = Inr (filename, ''N'', ''skipped''))
   \<and> (\<forall>out. exiftool_compressor_id env (path @ ''/'' @ filename) = Some out
          \<and> py_strip (py_lower out) \<noteq> ''hvc1'' \<and> py_strip (py_lower out) \<noteq> [] \<longrightarrow>
      snd (read_metadata env path filename w) = Inr (filename, ''Y'', ''queued''))
   \<and> (\<forall>out doc. exiftool_compressor_id env (path @ ''/'' @ filename) = Some out
          \<and> py_strip (py_lower out) = []
          \<and> exiftool_doc_type env (path @ ''/'' @ filename) = Some doc
          \<and> py_strip (py_lower doc) = ''matroska'' \<longrightarrow>
      snd (read_metadata env path filename w) = Inr (filename, ''Y'', ''queued''))
   \<and> (\<forall>out doc. exiftool_compressor_id env (path @ ''/'' @ filename) = Some out
          \<and> py_strip (py_lower out) = []
          \<and> exiftool_doc_type env (path @ ''/'' @ filename) = Some doc
          \<and> py_strip (py_lower doc) \<noteq> ''matroska'' \<longrightarrow>
      snd (read_metadata env path filename w) = Inr (filename, ''N'', ''unknown''))
   \<and> (\<forall>out. exiftool_compressor_id env (path @ ''/'' @ filename) = Some out
          \<and> py_strip (py_lower out) = []
          \<and> exiftool_doc_type env (path @ ''/'' @ filename) = None \<longrightarrow>
      snd (read_metadata env path filename w) = Inl CalledProcessError)"
  by (simp add: read_metadata_def verify_metadata_def Let_def)

text \<open>
  C2. The first probe of \<open>/mnt/clip.mp4\<close> succeeds with an empty tag and the second
  probe fails: \<open>read_metadata\<close> does not return a classification, it raises
  CalledProcessError, and the scan that called it stops with that error before
  anything is inserted.
\<close>

theorem read_metadata_second_probe_failure:
  "snd (read_metadata second_probe_fails ''/mnt'' ''clip.mp4'' empty_world) = Inl CalledProcessError
   \<and> snd (scan_directory second_probe_fails [(''/mnt'', [''clip.mp4''])] empty_world)
       = Inl CalledProcessError
   \<and> queue (fst (scan_directory second_probe_fails [(''/mnt'', [''clip.mp4''])] empty_world)) = []"
  by code_simp


subsection \<open>The output path\<close>

lemma replace_py_changes:
  assumes "old \<noteq> []" "\<not> prefix old new" "\<not> prefix new old"
  shows "sublist old s \<Longrightarrow> replace_py old new s \<noteq> s"
proof (induction s)
  case Nil
  with assms(1) show ?case by simp
next
  case (Cons c cs)
  show ?case
  proof (cases "prefix old (c # cs)")
    case True
    then obtain rest where rest: "c # cs = old @ rest"
      by (auto simp: prefix_def)
    have "replace_py old new (c # cs) = new @ replace_py old new (drop (length old) (c # cs))"
      using assms(1) True by (subst replace_py.simps) simp
    moreover have "new @ ys \<noteq> old @ rest" for ys
      using assms(2,3) by (metis append_eq_append_conv2 prefixI)
    ultimately show ?thesis using rest by metis
  next
    case False
    then have "sublist old cs"
      using Cons.prems by (simp add: sublist_Cons_right)
    then have "replace_py old new cs \<noteq> cs" by (rule Cons.IH)
    moreover have "replace_py old new (c # cs) = c # replace_py old new cs"
      using assms(1) False by (subst replace_py.simps) simp
    ultimately show ?thesis by simp
  qed
qed

lemma endswith_input_file:
  "endswith filename suf \<Longrightarrow> sublist suf (path @ ''/'' @ filename)"
  unfolding endswith_def
  by (metis sublist_appendI suffix_def append.assoc append_Nil2)

lemma Transcode_output_differs:
  assumes "output_file (Transcode path filename) = Some out"
  shows "out \<noteq> input_file (Transcode path filename)"
proof (cases "endswith filename ''.mkv''")
  case True
  have "replace_py ''.mkv'' ''.mp4'' (path @ ''/'' @ filename) \<noteq> path @ ''/'' @ filename"
    by (rule replace_py_changes [OF _ _ _ endswith_input_file [OF True]]) simp_all
  with True assms show ?thesis by (simp add: Transcode_def Let_def)
next
  case False
  with assms have mp4: "endswith filename ''.mp4''"
    by (simp add: Transcode_def Let_def split: if_splits)
  have "replace_py ''.mp4'' ''.h265'' (path @ ''/'' @ filename) \<noteq> path @ ''/'' @ filename"
    by (rule replace_py_changes [OF _ _ _ endswith_input_file [OF mp4]]) simp_all
  with False mp4 assms show ?thesis by (simp add: Transcode_def Let_def)
qed

lemma Transcode_fields [simp]:
  "t_path (Transcode path filename) = path"
  "t_filename (Transcode path filename) = filename"
  "input_file (Transcode path filename) = path @ ''/'' @ filename"
  by (simp_all add: Transcode_def Let_def)

lemma Transcode_outputs:
  "endswith filename ''.mkv'' \<or> endswith filename ''.mp4'' \<Longrightarrow>
   \<exists>out title. output_file (Transcode path filename) = Some out
                \<and> video_title (Transcode path filename) = Some title"
  by (auto simp: Transcode_def Let_def)

text \<open>
  C4. For the file \<open>b.mkv\<close> in the directory \<open>/mnt/a.mkv\<close> the derived output path is
  \<open>/mnt/a.mp4/b.mp4\<close>: the directory name was rewritten too, so the output is not the
  input path with its extension replaced, which is \<open>/mnt/a.mkv/b.mp4\<close>. For the file
  \<open>c.mp4\<close> in \<open>/mnt/a.mp4\<close> the intermediate output is \<open>/mnt/a.h265/c.h265\<close>.
\<close>

theorem Transcode_rewrites_directory:
  "input_file (Transcode ''/mnt/a.mkv'' ''b.mkv'') = ''/mnt/a.mkv/b.mkv''
   \<and> output_file (Transcode ''/mnt/a.mkv'' ''b.mkv'') = Some ''/mnt/a.mp4/b.mp4''
   \<and> removesuffix (input_file (Transcode ''/mnt/a.mkv'' ''b.mkv'')) ''.mkv'' @ ''.mp4''
       = ''/mnt/a.mkv/b.mp4''
   \<and> output_file (Transcode ''/mnt/a.mp4'' ''c.mp4'') = Some ''/mnt/a.h265/c.h265''"
  by code_simp

subsection \<open>Batch insert\<close>

lemma executemany_insert_prefix:
  "\<exists>k \<le> length rs.
      fst (executemany_insert tbl rs) = tbl @ take k rs
    \<and> (snd (executemany_insert tbl rs) \<longleftrightarrow> k < length rs)
    \<and> (k < length rs \<longrightarrow> entry_key (rs ! k) \<in> entry_key ` set (tbl @ take k rs))"
proof (induction rs arbitrary: tbl)
  case Nil
  show ?case by simp
next
  case (Cons r rs)
  show ?case
  proof (cases "entry_key r \<in> set (map entry_key tbl)")
    case True
    then show ?thesis by (intro exI [of _ 0]) simp
  next
    case False
    from Cons.IH [of "tbl @ [r]"] obtain k where k: "k \<le> length rs"
      "fst (executemany_insert (tbl @ [r]) rs) = (tbl @ [r]) @ take k rs"
      "snd (executemany_insert (tbl @ [r]) rs) \<longleftrightarrow> k < length rs"
      "k < length rs \<longrightarrow> entry_key (rs ! k) \<in> entry_key ` set ((tbl @ [r]) @ take k rs)"
      by blast
    with False show ?thesis by (intro exI [of _ "Suc k"]) simp
  qed
qed

lemma executemany_insert_distinct:
  "distinct (map entry_key tbl) \<Longrightarrow> distinct (map entry_key (fst (executemany_insert tbl rs)))"
  by (induction rs arbitrary: tbl) auto

lemma executemany_insert_all:
  "distinct (map entry_key (tbl @ rs)) \<Longrightarrow> executemany_insert tbl rs = (tbl @ rs, False)"
  by (induction rs arbitrary: tbl) auto

lemma insert_scan_results_queue:
  "storage_ok w \<Longrightarrow>
   queue (fst (insert_scan_results insert_list w)) = fst (executemany_insert (queue w) insert_list)"
  by (simp add: insert_scan_results_def Let_def split: prod.splits bool.splits)

lemma insert_scan_results_returns:
  "storage_ok w \<Longrightarrow> snd (insert_scan_results insert_list w) = Inr ()"
  by (simp add: insert_scan_results_def Let_def split: prod.splits bool.splits)

lemma insert_scan_results_logged:
  "storage_ok w \<Longrightarrow> snd (executemany_insert (queue w) insert_list) \<Longrightarrow>
   (ERROR, ''Duplicate filename found in SQLite table.'')
     \<in> set (logs (fst (insert_scan_results insert_list w)))"
  by (cases "executemany_insert (queue w) insert_list")
     (simp add: insert_scan_results_def Let_def)

text \<open>
  C3, as the code has it. With a working storage and a table whose keys are unique,
  the batch insert returns normally, the keys stay unique, and the table grows by
  the entries of the batch that come before the first rejected one (all of them when
  no key of the batch is in the table or repeated in the batch). When an entry is
  rejected, its key is already in the table, the error is logged, and that entry
  and the entries after it are not inserted.
\<close>

theorem insert_scan_results_duplicate_key:
  assumes "storage_ok w" and "distinct (map entry_key (queue w))"
  shows "snd (insert_scan_results insert_list w) = Inr ()
       \<and> distinct (map entry_key (queue (fst (insert_scan_results insert_list w))))
       \<and> (\<exists>k \<le> length insert_list.
             queue (fst (insert_scan_results insert_list w)) = queue w @ take k insert_list
           \<and> (k < length insert_list \<longrightarrow>
                 entry_key (insert_list ! k) \<in> entry_key ` set (queue w @ take k insert_list)
               \<and> (ERROR, ''Duplicate filename found in SQLite table.'')
                   \<in> set (logs (fst (insert_scan_results insert_list w)))))
       \<and> (distinct (map entry_key (queue w @ insert_list)) \<longrightarrow>
             queue (fst (insert_scan_results insert_list w)) = queue w @ insert_list)"
proof -
  obtain k where k: "k \<le> length insert_list"
      "fst (executemany_insert (queue w) insert_list) = queue w @ take k insert_list"
      "snd (executemany_insert (queue w) insert_list) \<longleftrightarrow> k < length insert_list"
      "k < length insert_list \<longrightarrow>
         entry_key (insert_list ! k) \<in> entry_key ` set (queue w @ take k insert_list)"
    using executemany_insert_prefix [of insert_list "queue w"] by blast
  have q: "queue (fst (insert_scan_results insert_list w))
             = fst (executemany_insert (queue w) insert_list)"
    by (rule insert_scan_results_queue [OF assms(1)])
  have "distinct (map entry_key (queue (fst (insert_scan_results insert_list w))))"
    unfolding q by (rule executemany_insert_distinct [OF assms(2)])
  moreover have "\<exists>k \<le> length insert_list.
             queue (fst (insert_scan_results insert_list w)) = queue w @ take k insert_list
           \<and> (k < length insert_list \<longrightarrow>
                 entry_key (insert_list ! k) \<in> entry_key ` set (queue w @ take k insert_list)
               \<and> (ERROR, ''Duplicate filename found in SQLite table.'')
                   \<in> set (logs (fst (insert_scan_results insert_list w))))"
    using k q insert_scan_results_logged [OF assms(1), of insert_list] by auto
  moreover have "distinct (map entry_key (queue w @ insert_list)) \<longrightarrow>
             queue (fst (insert_scan_results insert_list w)) = queue w @ insert_list"
    unfolding q by (simp add: executemany_insert_all)
  ultimately show ?thesis
    using insert_scan_results_returns [OF assms(1)] by blast
qed

theorem insert_scan_results_duplicate_key_witness:
  "storage_ok example_world \<and> distinct (map entry_key (queue example_world))
   \<and> snd (insert_scan_results [new_row, movie_row, clip_row] example_world) = Inr ()
   \<and> queue (fst (insert_scan_results [new_row, movie_row, clip_row] example_world))
       = example_table @ [new_row]"
proof -
  have ok: "storage_ok example_world"
    by (simp add: example_world_def)
  have keys: "distinct (map entry_key (queue example_world))"
    by (simp add: example_world_def example_table_def entry_key_def)
  note ins = insert_scan_results_duplicate_key [OF ok keys, of "[new_row, movie_row, clip_row]"]
  have "queue (fst (insert_scan_results [new_row, movie_row, clip_row] example_world))
       = example_table @ [new_row]"
    by code_simp
  with ok keys ins [THEN conjunct1] show ?thesis by simp
qed

text \<open>
  The batch \<open>[movie_row, movie_row, clip_row]\<close> on an empty table: the second entry is
  rejected, and \<open>clip_row\<close>, whose key is not in the table, is not inserted.
\<close>

theorem insert_scan_results_stops_at_duplicate:
  "entry_key clip_row \<noteq> entry_key movie_row
   \<and> snd (insert_scan_results [movie_row, movie_row, clip_row] empty_world) = Inr ()
   \<and> queue (fst (insert_scan_results [movie_row, movie_row, clip_row] empty_world)) = [movie_row]
   \<and> clip_row \<notin> set (queue (fst (insert_scan_results [movie_row, movie_row, clip_row] empty_world)))"
  by code_simp

subsection \<open>Status updates and the per-file run\<close>

lemma update_status_fields [simp]:
  "files (update_status path filename status w) = files w"
  "storage_ok (update_status path filename status w) = storage_ok w"
  "queue (update_status path filename status w) =
     (if storage_ok w then set_status path filename status (queue w) else queue w)"
  "calls (update_status path filename status w) =
     (if storage_ok w then calls w @ [StatusUpdate path filename status] else calls w)"
  by (simp_all add: update_status_def)

lemma set_status_twice [simp]:
  "set_status path filename s2 (set_status path filename s1 tbl) = set_status path filename s2 tbl"
  by (induction tbl) (simp_all add: set_status_def)

lemma set_status_keys [simp]:
  "map entry_key (set_status path filename status tbl) = map entry_key tbl"
  by (induction tbl) (simp_all add: set_status_def entry_key_def)

lemma set_status_transcode [simp]:
  "map q_transcode (set_status path filename status tbl) = map q_transcode tbl"
  by (induction tbl) (simp_all add: set_status_def)

lemma set_status_hit:
  assumes "r \<in> set (set_status path filename status tbl)"
    and "q_path r = path" and "q_filename r = filename"
  shows "q_status r = status"
proof -
  from assms(1) obtain r0 where
    r0: "r = (if q_path r0 = path \<and> q_filename r0 = filename then r0\<lparr>q_status := status\<rparr> else r0)"
    unfolding set_status_def set_map by (rule imageE)
  show ?thesis
  proof (cases "q_path r0 = path \<and> q_filename r0 = filename")
    case True
    with r0 have "r = r0\<lparr>q_status := status\<rparr>" by simp
    then show ?thesis by simp
  next
    case False
    with r0 have "r = r0" by simp
    with assms(2,3) False show ?thesis by simp
  qed
qed

lemma get_file_size_fields [simp]:
  "files (fst (get_file_size p w)) = files w"
  "queue (fst (get_file_size p w)) = queue w"
  "calls (fst (get_file_size p w)) = calls w"
  "storage_ok (fst (get_file_size p w)) = storage_ok w"
  by (simp_all add: get_file_size_def Let_def split: option.splits)

lemma get_file_size_result:
  "snd (get_file_size p w) = (case files w p of None \<Rightarrow> Inl FileNotFoundError | Some sz \<Rightarrow> Inr sz)"
  by (simp add: get_file_size_def Let_def split: option.splits)

lemma transcode_files:
  assumes "output_file t = Some out" and "video_title t = Some title"
    and "ffmpeg_execute env (input_file t) out (files w) = (ok, fs1)"
  shows "files (fst (transcode env t w)) = (if ok then fs1 else fs1(out := None))"
  using assms
  by (auto simp: transcode_def Let_def unlink_def get_file_size_def
           split: option.splits prod.splits)

lemma transcode_result:
  assumes "output_file t = Some out" and "video_title t = Some title"
    and "ffmpeg_execute env (input_file t) out (files w) = (ok, fs1)"
  shows "snd (transcode env t w) =
           (if \<not> ok then Inr ''failed''
            else if input_file t \<in> dom fs1 \<and> out \<in> dom fs1 then Inr ''done''
            else Inl FileNotFoundError)"
  using assms
  by (auto simp: transcode_def Let_def unlink_def get_file_size_def
           split: option.splits prod.splits)


lemma transcode_storage_ok [simp]:
  "storage_ok (fst (transcode env t w)) = storage_ok w"
  by (cases "ffmpeg_execute env (input_file t) (the (output_file t)) (files w)")
     (auto simp: transcode_def Let_def unlink_def get_file_size_def
           split: option.splits prod.splits)

lemma transcode_queue_table:
  assumes "output_file t = Some out" and "video_title t = Some title"
    and "ffmpeg_execute env (input_file t) out (files w) = (ok, fs1)"
  shows "queue (fst (transcode env t w)) =
           (if storage_ok w
            then set_status (t_path t) (t_filename t) (if ok then ''done'' else ''failed'') (queue w)
            else queue w)"
  using assms
  by (auto simp: transcode_def Let_def unlink_def get_file_size_def
           split: option.splits prod.splits)

lemma transcode_calls:
  assumes "output_file t = Some out" and "video_title t = Some title"
    and "ffmpeg_execute env (input_file t) out (files w) = (ok, fs1)"
    and "storage_ok w"
  shows "calls (fst (transcode env t w)) =
           calls w
           @ [StatusUpdate (t_path t) (t_filename t) ''active'', EngineExecute (input_file t) out]
           @ (if \<not> ok \<and> out \<in> dom fs1 then [FileUnlink out] else [])
           @ [StatusUpdate (t_path t) (t_filename t) (if ok then ''done'' else ''failed'')]"
  using assms
  by (auto simp: transcode_def Let_def unlink_def get_file_size_def
           split: option.splits prod.splits)

lemma transcode_unset_output:
  "output_file t = None \<or> video_title t = None \<Longrightarrow>
   transcode env t w = (update_status (t_path t) (t_filename t) ''active'' w, Inl AttributeError)"
  by (auto simp: transcode_def Let_def split: option.splits)


text \<open>
  C1. With a working storage, the run of a file whose name ends in \<open>.mkv\<close> or \<open>.mp4\<close>
  first commits the status \<open>active\<close>, then invokes the engine, and last commits
  \<open>done\<close> when the engine succeeded and \<open>failed\<close> when it failed; between the engine
  and the last update it does nothing but remove the output file. Afterwards every
  row with this path and filename has that final status, which is not \<open>queued\<close>.
\<close>

theorem transcode_status_transitions:
  assumes "storage_ok w" and "endswith filename ''.mkv'' \<or> endswith filename ''.mp4''"
  shows "\<exists>out ok fs1 mid st.
           output_file (Transcode path filename) = Some out
         \<and> ffmpeg_execute env (path @ ''/'' @ filename) out (files w) = (ok, fs1)
         \<and> st = (if ok then ''done'' else ''failed'')
         \<and> calls (fst (transcode env (Transcode path filename) w)) =
             calls w
             @ [StatusUpdate path filename ''active'', EngineExecute (path @ ''/'' @ filename) out]
             @ mid @ [StatusUpdate path filename st]
         \<and> set mid \<subseteq> {FileUnlink out}
         \<and> queue (fst (transcode env (Transcode path filename) w))
             = set_status path filename st (queue w)
         \<and> (\<forall>r \<in> set (queue (fst (transcode env (Transcode path filename) w))).
               q_path r = path \<and> q_filename r = filename \<longrightarrow> q_status r = st)"
proof -
  let ?t = "Transcode path filename"
  from Transcode_outputs [OF assms(2)] obtain out title
    where out: "output_file ?t = Some out" and title: "video_title ?t = Some title"
    by blast
  obtain ok fs1 where eng: "ffmpeg_execute env (input_file ?t) out (files w) = (ok, fs1)"
    by (cases "ffmpeg_execute env (input_file ?t) out (files w)") blast
  let ?st = "if ok then ''done'' else ''failed''"
  let ?mid = "if \<not> ok \<and> out \<in> dom fs1 then [FileUnlink out] else []"
  have c: "calls (fst (transcode env ?t w)) =
             calls w
             @ [StatusUpdate path filename ''active'', EngineExecute (path @ ''/'' @ filename) out]
             @ ?mid @ [StatusUpdate path filename ?st]"
    using transcode_calls [OF out title eng assms(1)] by simp
  have q: "queue (fst (transcode env ?t w)) = set_status path filename ?st (queue w)"
    using transcode_queue_table [OF out title eng] assms(1) by simp
  have hit: "\<forall>r \<in> set (queue (fst (transcode env ?t w))).
               q_path r = path \<and> q_filename r = filename \<longrightarrow> q_status r = ?st"
    unfolding q using set_status_hit by blast
  have mid: "set ?mid \<subseteq> {FileUnlink out}" by auto
  have eng': "ffmpeg_execute env (path @ ''/'' @ filename) out (files w) = (ok, fs1)"
    using eng by simp
  show ?thesis
    using out eng' c mid q hit by blast
qed

text \<open>
  C6. With a working storage, when the engine fails on a file whose output path is
  \<open>out\<close>, the run returns \<open>failed\<close>, every row of the file has the status \<open>failed\<close>,
  no file exists at \<open>out\<close> afterwards, and every other path is as the engine left it.
\<close>

theorem transcode_failure_cleanup:
  assumes "storage_ok w"
    and "output_file (Transcode path filename) = Some out"
    and "\<not> fst (ffmpeg_execute env (path @ ''/'' @ filename) out (files w))"
  shows "snd (transcode env (Transcode path filename) w) = Inr ''failed''
       \<and> out \<notin> dom (files (fst (transcode env (Transcode path filename) w)))
       \<and> (\<forall>p. p \<noteq> out \<longrightarrow>
             files (fst (transcode env (Transcode path filename) w)) p
               = snd (ffmpeg_execute env (path @ ''/'' @ filename) out (files w)) p)
       \<and> (\<forall>r \<in> set (queue (fst (transcode env (Transcode path filename) w))).
             q_path r = path \<and> q_filename r = filename \<longrightarrow> q_status r = ''failed'')"
proof -
  let ?t = "Transcode path filename"
  obtain title where title: "video_title ?t = Some title"
    using assms(2) by (auto simp: Transcode_def Let_def split: if_splits)
  obtain fs1 where eng: "ffmpeg_execute env (input_file ?t) out (files w) = (False, fs1)"
    using assms(3) by (cases "ffmpeg_execute env (input_file ?t) out (files w)") simp
  have r: "snd (transcode env ?t w) = Inr ''failed''"
    using transcode_result [OF assms(2) title eng] by simp
  have f: "files (fst (transcode env ?t w)) = fs1(out := None)"
    using transcode_files [OF assms(2) title eng] by simp
  have q: "queue (fst (transcode env ?t w)) = set_status path filename ''failed'' (queue w)"
    using transcode_queue_table [OF assms(2) title eng] assms(1) by simp
  have hit: "\<forall>r \<in> set (queue (fst (transcode env ?t w))).
               q_path r = path \<and> q_filename r = filename \<longrightarrow> q_status r = ''failed''"
    unfolding q using set_status_hit by blast
  have fs1: "snd (ffmpeg_execute env (path @ ''/'' @ filename) out (files w)) = fs1"
    using eng by simp
  show ?thesis
    using r hit unfolding f fs1 by simp
qed


theorem transcode_status_transitions_witness:
  "storage_ok example_world \<and> endswith ''movie.mkv'' ''.mkv''
   \<and> calls (fst (transcode second_probe_fails (Transcode ''/mnt'' ''movie.mkv'') example_world))
       = [StatusUpdate ''/mnt'' ''movie.mkv'' ''active'',
          EngineExecute ''/mnt/movie.mkv'' ''/mnt/movie.mp4'',
          StatusUpdate ''/mnt'' ''movie.mkv'' ''done'']
   \<and> map q_status (queue (fst (transcode second_probe_fails (Transcode ''/mnt'' ''movie.mkv'')
                                 example_world)))
       = [''done'', ''skipped'', ''failed'', ''done'', ''active'', ''unknown'',
          ''queued'', ''queued'', ''queued'']"
proof -
  have ok: "storage_ok example_world"
    by (simp add: example_world_def)
  have ext: "endswith ''movie.mkv'' ''.mkv'' \<or> endswith ''movie.mkv'' ''.mp4''"
    by code_simp
  have ext1: "endswith ''movie.mkv'' ''.mkv''"
    by code_simp
  from transcode_status_transitions [OF ok ext, of "''/mnt''" second_probe_fails]
  obtain out ok1 fs1 mid st where
    run: "output_file (Transcode ''/mnt'' ''movie.mkv'') = Some out"
      "ffmpeg_execute second_probe_fails (''/mnt'' @ ''/'' @ ''movie.mkv'') out (files example_world)
         = (ok1, fs1)"
      "st = (if ok1 then ''done'' else ''failed'')"
      "calls (fst (transcode second_probe_fails (Transcode ''/mnt'' ''movie.mkv'') example_world)) =
         calls example_world
         @ [StatusUpdate ''/mnt'' ''movie.mkv'' ''active'',
            EngineExecute (''/mnt'' @ ''/'' @ ''movie.mkv'') out]
         @ mid @ [StatusUpdate ''/mnt'' ''movie.mkv'' st]"
      "set mid \<subseteq> {FileUnlink out}"
      "queue (fst (transcode second_probe_fails (Transcode ''/mnt'' ''movie.mkv'') example_world))
         = set_status ''/mnt'' ''movie.mkv'' st (queue example_world)"
    by blast
  have ok1: "ok1"
    using run(2) by (simp add: second_probe_fails_def)
  have out: "output_file (Transcode ''/mnt'' ''movie.mkv'') = Some ''/mnt/movie.mp4''"
    by code_simp
  have title: "video_title (Transcode ''/mnt'' ''movie.mkv'') = Some ''movie''"
    by code_simp
  have eng: "ffmpeg_execute second_probe_fails (input_file (Transcode ''/mnt'' ''movie.mkv''))
               ''/mnt/movie.mp4'' (files example_world)
             = (True, (files example_world)(''/mnt/movie.mp4'' \<mapsto> 300))"
    by (simp add: second_probe_fails_def)
  have c: "calls (fst (transcode second_probe_fails (Transcode ''/mnt'' ''movie.mkv'') example_world))
       = [StatusUpdate ''/mnt'' ''movie.mkv'' ''active'',
          EngineExecute ''/mnt/movie.mkv'' ''/mnt/movie.mp4'',
          StatusUpdate ''/mnt'' ''movie.mkv'' ''done'']"
    using transcode_calls [OF out title eng ok] by (simp add: example_world_def)
  have q: "map q_status (set_status ''/mnt'' ''movie.mkv'' ''done'' (queue example_world))
       = [''done'', ''skipped'', ''failed'', ''done'', ''active'', ''unknown'',
          ''queued'', ''queued'', ''queued'']"
    by code_simp
  have st: "st = ''done''"
    using run(3) ok1 by simp
  have q': "map q_status (queue (fst (transcode second_probe_fails (Transcode ''/mnt'' ''movie.mkv'')
                                 example_world)))
       = [''done'', ''skipped'', ''failed'', ''done'', ''active'', ''unknown'',
          ''queued'', ''queued'', ''queued'']"
    unfolding run(6) st by (rule q)
  show ?thesis
    by (intro conjI ok ext1 c q')
qed

theorem transcode_failure_cleanup_witness:
  "storage_ok example_world
   \<and> output_file (Transcode ''/mnt'' ''movie.mkv'') = Some ''/mnt/movie.mp4''
   \<and> ffmpeg_execute engine_fails ''/mnt/movie.mkv'' ''/mnt/movie.mp4'' (files example_world)
       = (False, (files example_world)(''/mnt/movie.mp4'' \<mapsto> 10))
   \<and> snd (transcode engine_fails (Transcode ''/mnt'' ''movie.mkv'') example_world) = Inr ''failed''
   \<and> ''/mnt/movie.mp4'' \<notin> dom (files (fst (transcode engine_fails (Transcode ''/mnt'' ''movie.mkv'')
                                              example_world)))"
proof -
  have ok: "storage_ok example_world"
    by (simp add: example_world_def)
  have out: "output_file (Transcode ''/mnt'' ''movie.mkv'') = Some ''/mnt/movie.mp4''"
    by code_simp
  have eng: "ffmpeg_execute engine_fails ''/mnt/movie.mkv'' ''/mnt/movie.mp4'' (files example_world)
       = (False, (files example_world)(''/mnt/movie.mp4'' \<mapsto> 10))"
    by (simp add: engine_fails_def)
  have fails: "\<not> fst (ffmpeg_execute engine_fails (''/mnt'' @ ''/'' @ ''movie.mkv'') ''/mnt/movie.mp4''
                       (files example_world))"
    by (simp add: engine_fails_def)
  note cleanup = transcode_failure_cleanup [OF ok out fails]
  show ?thesis
    by (intro conjI ok out eng cleanup [THEN conjunct1] cleanup [THEN conjunct2, THEN conjunct1])
qed

subsection \<open>Disposal of the original file\<close>

lemma suffix_input_file:
  assumes "CHR ''/'' \<notin> set suf"
  shows "suffix suf (path @ CHR ''/'' # filename) \<longleftrightarrow> suffix suf filename"
proof
  assume "suffix suf filename"
  then show "suffix suf (path @ CHR ''/'' # filename)"
    by (simp add: suffix_ConsI suffix_appendI)
next
  assume "suffix suf (path @ CHR ''/'' # filename)"
  then have "suffix suf (CHR ''/'' # filename)"
    using assms by (auto simp: suffix_append)
  then show "suffix suf filename"
    using assms by (auto simp: suffix_Cons)
qed

lemma endswith_input_file_iff:
  "endswith (path @ CHR ''/'' # filename) ''.mkv'' = endswith filename ''.mkv''"
  "endswith (path @ CHR ''/'' # filename) ''.mp4'' = endswith filename ''.mp4''"
  unfolding endswith_def by (simp_all add: suffix_input_file)

lemma delete_original_mkv:
  assumes "endswith filename ''.mkv''" and "files w (path @ ''/'' @ filename) = Some sz"
  shows "files (fst (delete_original (Transcode path filename) w))
           = (files w)(path @ ''/'' @ filename := None)"
    and "snd (delete_original (Transcode path filename) w) = Inr ()"
  using assms by (simp_all add: delete_original_def endswith_input_file_iff unlink_def)

lemma delete_original_mp4:
  assumes "\<not> endswith filename ''.mkv''" and "endswith filename ''.mp4''"
    and "output_file (Transcode path filename) = Some out" and "files w out = Some sz"
  shows "files (fst (delete_original (Transcode path filename) w))
           = ((files w)(out := None))(path @ ''/'' @ filename \<mapsto> sz)"
    and "snd (delete_original (Transcode path filename) w) = Inr ()"
  using assms by (simp_all add: delete_original_def endswith_input_file_iff replace_file_def)

lemma transcode_queue_single:
  "transcode_queue env DELETE [(path, filename)] w =
     (case transcode env (Transcode path filename) w of
        (w1, Inl e) \<Rightarrow> (w1, Inl e)
      | (w1, Inr transcode_video) \<Rightarrow>
          if transcode_video = ''done'' \<and> DELETE then
            (case delete_original (Transcode path filename) w1 of
               (w2, Inl e) \<Rightarrow> (w2, Inl e)
             | (w2, Inr u) \<Rightarrow> (w2, Inr ()))
          else (w1, Inr ()))"
  by (simp add: Let_def split: prod.splits sum.splits)

lemma transcode_queue_single_files:
  "files (fst (transcode_queue env DELETE [(path, filename)] w)) =
     (if DELETE \<and> snd (transcode env (Transcode path filename) w) = Inr ''done''
      then files (fst (delete_original (Transcode path filename)
                          (fst (transcode env (Transcode path filename) w))))
      else files (fst (transcode env (Transcode path filename) w)))"
  unfolding transcode_queue_single
  by (cases "transcode env (Transcode path filename) w";
      cases "snd (transcode env (Transcode path filename) w)";
      cases "delete_original (Transcode path filename) (fst (transcode env (Transcode path filename) w))";
      cases "snd (delete_original (Transcode path filename) (fst (transcode env (Transcode path filename) w)))")
     simp_all


lemma not_both_extensions:
  "endswith filename ''.mkv'' \<Longrightarrow> \<not> endswith filename ''.mp4''"
proof
  assume "endswith filename ''.mkv''" "endswith filename ''.mp4''"
  then have "suffix ''.mkv'' ''.mp4'' \<or> suffix ''.mp4'' ''.mkv''"
    unfolding endswith_def by (rule suffix_same_cases)
  then show False by (auto simp: suffix_def)
qed

text \<open>
  C7. Processing one queue entry whose output path is \<open>out\<close>, with an engine that
  leaves the input file as it is: unless \<open>DELETE\<close> is set and the run returned \<open>done\<close>,
  the input file is afterwards what it was before. When \<open>DELETE\<close> is set and the run
  returned \<open>done\<close>, an \<open>.mkv\<close> input no longer exists and the output is as the engine
  wrote it, and an \<open>.mp4\<close> input has been replaced by the intermediate output, which
  no longer exists under its own name.
\<close>

theorem transcode_queue_original_file:
  assumes "output_file (Transcode path filename) = Some out"
    and "ffmpeg_execute env (path @ ''/'' @ filename) out (files w) = (ok, fs1)"
    and "fs1 (path @ ''/'' @ filename) = files w (path @ ''/'' @ filename)"
  shows "(\<not> (DELETE \<and> snd (transcode env (Transcode path filename) w) = Inr ''done'') \<longrightarrow>
            files (fst (transcode_queue env DELETE [(path, filename)] w)) (path @ ''/'' @ filename)
              = files w (path @ ''/'' @ filename))
       \<and> (DELETE \<and> snd (transcode env (Transcode path filename) w) = Inr ''done''
            \<and> endswith filename ''.mkv'' \<longrightarrow>
            files (fst (transcode_queue env DELETE [(path, filename)] w)) (path @ ''/'' @ filename)
              = None
          \<and> files (fst (transcode_queue env DELETE [(path, filename)] w)) out = fs1 out
          \<and> fs1 out \<noteq> None)
       \<and> (DELETE \<and> snd (transcode env (Transcode path filename) w) = Inr ''done''
            \<and> endswith filename ''.mp4'' \<longrightarrow>
            files (fst (transcode_queue env DELETE [(path, filename)] w)) (path @ ''/'' @ filename)
              = fs1 out
          \<and> fs1 out \<noteq> None
          \<and> files (fst (transcode_queue env DELETE [(path, filename)] w)) out = None)"
proof -
  let ?t = "Transcode path filename"
  let ?inp = "path @ ''/'' @ filename"
  let ?w1 = "fst (transcode env ?t w)"
  let ?w' = "fst (transcode_queue env DELETE [(path, filename)] w)"
  obtain title where title: "video_title ?t = Some title"
    using assms(1) by (auto simp: Transcode_def Let_def split: if_splits)
  have eng: "ffmpeg_execute env (input_file ?t) out (files w) = (ok, fs1)"
    using assms(2) by simp
  have neq: "out \<noteq> ?inp"
    using Transcode_output_differs [OF assms(1)] by simp
  have f1: "files ?w1 = (if ok then fs1 else fs1(out := None))"
    by (rule transcode_files [OF assms(1) title eng])
  have res: "snd (transcode env ?t w) = Inr ''done''
               \<longleftrightarrow> ok \<and> fs1 ?inp \<noteq> None \<and> fs1 out \<noteq> None"
    using transcode_result [OF assms(1) title eng] by (auto simp: domIff)
  have keep: "files ?w' ?inp = files w ?inp"
    if "\<not> (DELETE \<and> snd (transcode env ?t w) = Inr ''done'')"
  proof -
    from that have "files ?w' = files ?w1"
      unfolding transcode_queue_single_files by auto
    then show ?thesis
      using f1 neq assms(3) by simp
  qed
  have mkv: "files ?w' ?inp = None \<and> files ?w' out = fs1 out \<and> fs1 out \<noteq> None"
    if d: "DELETE" "snd (transcode env ?t w) = Inr ''done''" and e: "endswith filename ''.mkv''"
  proof -
    from d(2) res obtain a where a: "ok" "fs1 ?inp = Some a" "fs1 out \<noteq> None"
      by auto
    have w1: "files ?w1 ?inp = Some a" using f1 a by simp
    have "files ?w' = files (fst (delete_original ?t ?w1))"
      unfolding transcode_queue_single_files using d by auto
    also have "\<dots> = (files ?w1)(?inp := None)"
      by (rule delete_original_mkv(1) [OF e w1])
    finally show ?thesis
      using f1 a neq by simp
  qed
  have mp4: "files ?w' ?inp = fs1 out \<and> fs1 out \<noteq> None \<and> files ?w' out = None"
    if d: "DELETE" "snd (transcode env ?t w) = Inr ''done''" and e: "endswith filename ''.mp4''"
  proof -
    from d(2) res obtain b where b: "ok" "fs1 ?inp \<noteq> None" "fs1 out = Some b"
      by auto
    have w1: "files ?w1 out = Some b" using f1 b by simp
    have nm: "\<not> endswith filename ''.mkv''"
      using e not_both_extensions by blast
    have "files ?w' = files (fst (delete_original ?t ?w1))"
      unfolding transcode_queue_single_files using d by auto
    also have "\<dots> = ((files ?w1)(out := None))(?inp \<mapsto> b)"
      by (rule delete_original_mp4(1) [OF nm e assms(1) w1])
    finally show ?thesis
      using b neq by simp
  qed
  show ?thesis
    using keep mkv mp4 by blast
qed


theorem transcode_queue_original_file_witness:
  "output_file (Transcode ''/mnt'' ''movie.mkv'') = Some ''/mnt/movie.mp4''
   \<and> ffmpeg_execute second_probe_fails ''/mnt/movie.mkv'' ''/mnt/movie.mp4'' (files example_world)
       = (True, (files example_world)(''/mnt/movie.mp4'' \<mapsto> 300))
   \<and> snd (transcode second_probe_fails (Transcode ''/mnt'' ''movie.mkv'') example_world) = Inr ''done''
   \<and> files example_world ''/mnt/movie.mkv'' = Some 700
   \<and> files (fst (transcode_queue second_probe_fails True [(''/mnt'', ''movie.mkv'')] example_world))
         ''/mnt/movie.mkv'' = None
   \<and> files (fst (transcode_queue second_probe_fails False [(''/mnt'', ''movie.mkv'')] example_world))
         ''/mnt/movie.mkv'' = Some 700"
proof -
  have out: "output_file (Transcode ''/mnt'' ''movie.mkv'') = Some ''/mnt/movie.mp4''"
    by code_simp
  have title: "video_title (Transcode ''/mnt'' ''movie.mkv'') = Some ''movie''"
    by code_simp
  have ext: "endswith ''movie.mkv'' ''.mkv''"
    by code_simp
  have eng: "ffmpeg_execute second_probe_fails (''/mnt'' @ ''/'' @ ''movie.mkv'') ''/mnt/movie.mp4''
               (files example_world)
             = (True, (files example_world)(''/mnt/movie.mp4'' \<mapsto> 300))"
    by (simp add: second_probe_fails_def)
  have frame: "((files example_world)(''/mnt/movie.mp4'' \<mapsto> 300)) (''/mnt'' @ ''/'' @ ''movie.mkv'')
                 = files example_world (''/mnt'' @ ''/'' @ ''movie.mkv'')"
    by simp
  have before: "files example_world ''/mnt/movie.mkv'' = Some 700"
    by (simp add: example_world_def)
  have eng0: "ffmpeg_execute second_probe_fails (input_file (Transcode ''/mnt'' ''movie.mkv''))
                ''/mnt/movie.mp4'' (files example_world)
             = (True, (files example_world)(''/mnt/movie.mp4'' \<mapsto> 300))"
    by (simp add: second_probe_fails_def)
  have finished: "snd (transcode second_probe_fails (Transcode ''/mnt'' ''movie.mkv'') example_world)
                    = Inr ''done''"
    using transcode_result [OF out title eng0] before by (simp add: domIff)
  note with_delete = transcode_queue_original_file [OF out eng frame, of True]
  note without_delete = transcode_queue_original_file [OF out eng frame, of False]
  have gone: "files (fst (transcode_queue second_probe_fails True [(''/mnt'', ''movie.mkv'')]
                            example_world)) ''/mnt/movie.mkv'' = None"
    using with_delete [THEN conjunct2, THEN conjunct1] finished ext by simp
  have kept: "files (fst (transcode_queue second_probe_fails False [(''/mnt'', ''movie.mkv'')]
                            example_world)) ''/mnt/movie.mkv'' = Some 700"
    using without_delete [THEN conjunct1] before by simp
  have eng1: "ffmpeg_execute second_probe_fails ''/mnt/movie.mkv'' ''/mnt/movie.mp4''
                (files example_world)
             = (True, (files example_world)(''/mnt/movie.mp4'' \<mapsto> 300))"
    by (simp add: second_probe_fails_def)
  show ?thesis
    by (intro conjI out eng1 finished before gone kept)
qed

subsection \<open>The table invariant\<close>

lemma verify_metadata_fields [simp]:
  "queue (fst (verify_metadata env f w)) = queue w"
  "files (fst (verify_metadata env f w)) = files w"
  "storage_ok (fst (verify_metadata env f w)) = storage_ok w"
  by (simp_all add: verify_metadata_def Let_def split: option.splits)

lemma verify_metadata_rows:
  "snd (verify_metadata env f w) = Inr (tr, st) \<Longrightarrow>
   tr = ''Y'' \<or> st = ''skipped'' \<or> st = ''unknown''"
  by (auto simp: verify_metadata_def Let_def split: option.splits if_splits)

lemma read_metadata_fields [simp]:
  "queue (fst (read_metadata env p f w)) = queue w"
  "files (fst (read_metadata env p f w)) = files w"
  "storage_ok (fst (read_metadata env p f w)) = storage_ok w"
  by (simp_all add: read_metadata_def verify_metadata_def Let_def split: option.splits)

lemma read_metadata_rows:
  "snd (read_metadata env p f w) = Inr (f', tr, st) \<Longrightarrow>
   tr = ''Y'' \<or> st = ''skipped'' \<or> st = ''unknown''"
  by (auto simp: read_metadata_def verify_metadata_def Let_def split: option.splits if_splits)


lemma read_metadata_pair:
  assumes "read_metadata env p f w = (w1, res)"
  shows "queue w1 = queue w" and "files w1 = files w" and "storage_ok w1 = storage_ok w"
    and "res = Inr (f', tr, st) \<Longrightarrow> tr = ''Y'' \<or> st = ''skipped'' \<or> st = ''unknown''"
proof -
  have w1: "w1 = fst (read_metadata env p f w)" and res: "res = snd (read_metadata env p f w)"
    using assms by simp_all
  show "queue w1 = queue w" "files w1 = files w" "storage_ok w1 = storage_ok w"
    unfolding w1 by simp_all
  show "res = Inr (f', tr, st) \<Longrightarrow> tr = ''Y'' \<or> st = ''skipped'' \<or> st = ''unknown''"
    unfolding res by (rule read_metadata_rows)
qed

lemma classify_videos_fields:
  "queue (fst (classify_videos env vs acc w)) = queue w
   \<and> files (fst (classify_videos env vs acc w)) = files w
   \<and> storage_ok (fst (classify_videos env vs acc w)) = storage_ok w"
proof (induction env vs acc w rule: classify_videos.induct)
  case (1 env queue_list w)
  show ?case by simp
next
  case (2 env path filename rest queue_list w)
  show ?case
  proof (cases "endswith filename ''.mkv''")
    case True
    with 2(1) show ?thesis by simp
  next
    case False
    obtain w1 res where rm: "read_metadata env path filename w = (w1, res)"
      by (cases "read_metadata env path filename w") blast
    note same = read_metadata_pair(1-3) [OF rm]
    show ?thesis
    proof (cases res)
      case (Inl e)
      with False rm same show ?thesis by simp
    next
      case (Inr row)
      obtain f' tr st where row: "row = (f', tr, st)" by (cases row) blast
      from 2(2) [OF False rm [symmetric] Inr row [symmetric] refl]
      show ?thesis using False rm Inr row same by simp
    qed
  qed
qed


lemma classify_videos_rows:
  "snd (classify_videos env vs acc w) = Inr q \<Longrightarrow>
   \<forall>r \<in> set acc. q_transcode r = ''Y'' \<or> q_status r = ''skipped'' \<or> q_status r = ''unknown'' \<Longrightarrow>
   \<forall>r \<in> set q. q_transcode r = ''Y'' \<or> q_status r = ''skipped'' \<or> q_status r = ''unknown''"
proof (induction env vs acc w rule: classify_videos.induct)
  case (1 env queue_list w)
  then show ?case by simp
next
  case (2 env path filename rest queue_list w)
  show ?case
  proof (cases "endswith filename ''.mkv''")
    case True
    show ?thesis
      by (rule 2(1) [OF True]) (use True 2(3,4) in simp_all)
  next
    case False
    obtain w1 res where rm: "read_metadata env path filename w = (w1, res)"
      by (cases "read_metadata env path filename w") blast
    show ?thesis
    proof (cases res)
      case (Inl e)
      with False rm 2(3) show ?thesis by simp
    next
      case (Inr row)
      obtain f' tr st where row: "row = (f', tr, st)" by (cases row) blast
      have ok: "tr = ''Y'' \<or> st = ''skipped'' \<or> st = ''unknown''"
        using read_metadata_pair(4) [OF rm] Inr row by simp
      show ?thesis
        by (rule 2(2) [OF False rm [symmetric] Inr row [symmetric] refl])
           (use False rm Inr row ok 2(3,4) in simp_all)
    qed
  qed
qed

lemma executemany_insert_rows:
  assumes "\<forall>r \<in> set tbl. P r" and "\<forall>r \<in> set rs. P r"
  shows "\<forall>r \<in> set (fst (executemany_insert tbl rs)). P r"
proof -
  obtain k where "fst (executemany_insert tbl rs) = tbl @ take k rs"
    using executemany_insert_prefix [of rs tbl] by blast
  moreover have "set (take k rs) \<subseteq> set rs"
    by (rule set_take_subset)
  ultimately show ?thesis
    using assms by auto
qed

lemma insert_scan_results_table:
  "queue (fst (insert_scan_results insert_list w)) =
     (if storage_ok w then fst (executemany_insert (queue w) insert_list) else queue w)"
  by (cases "executemany_insert (queue w) insert_list")
     (simp add: insert_scan_results_def Let_def split: bool.splits)

lemma insert_scan_results_table_ok:
  assumes "table_ok (queue w)"
    and "\<forall>r \<in> set insert_list. q_transcode r = ''Y'' \<or> q_status r = ''skipped'' \<or> q_status r = ''unknown''"
  shows "table_ok (queue (fst (insert_scan_results insert_list w)))"
  using assms executemany_insert_distinct [of "queue w" insert_list]
    executemany_insert_rows [of "queue w"
      "\<lambda>r. q_transcode r = ''Y'' \<or> q_status r = ''skipped'' \<or> q_status r = ''unknown''" insert_list]
  unfolding insert_scan_results_table table_ok_def by auto

lemma foldl_logger_queue:
  "queue (foldl (\<lambda>w' (a, b). logger lv (f a b) w') w xs) = queue w"
  by (induction xs arbitrary: w) (simp_all split: prod.splits)

lemma scan_directory_table_ok:
  assumes "table_ok (queue w)"
  shows "table_ok (queue (fst (scan_directory env walk w)))"
proof -
  let ?w2 = "logger DEBUG ''Checking metadata on video files.''
     (logger INFO (''Scan complete. Found '' @ str_nat (length (video_files walk)) @ '' video file(s).'')
        (foldl (\<lambda>w' (root, filename).
                   logger INFO (''Found '' @ quoted (root @ ''/'' @ filename) @ ''.'') w')
               (logger INFO ''Beginning scan...'' w) (video_files walk)))"
  have q2: "queue ?w2 = queue w"
    by (simp add: foldl_logger_queue)
  obtain w3 res where cv: "classify_videos env (video_files walk) [] ?w2 = (w3, res)"
    by (cases "classify_videos env (video_files walk) [] ?w2") blast
  have q3: "queue w3 = queue w"
    using classify_videos_fields [of env "video_files walk" "[]" ?w2] cv q2 by simp
  show ?thesis
  proof (cases res)
    case (Inl e)
    with cv q3 assms show ?thesis
      by (simp add: scan_directory_def Let_def foldl_logger_queue)
  next
    case (Inr queue_list)
    have rows: "\<forall>r \<in> set queue_list.
        q_transcode r = ''Y'' \<or> q_status r = ''skipped'' \<or> q_status r = ''unknown''"
      using classify_videos_rows [of env "video_files walk" "[]" ?w2 queue_list] cv Inr by simp
    have "table_ok (queue (fst (insert_scan_results queue_list w3)))"
      by (rule insert_scan_results_table_ok) (use assms q3 rows in simp_all)
    with cv Inr assms show ?thesis
      by (simp add: scan_directory_def Let_def foldl_logger_queue)
  qed
qed


lemma set_status_rows:
  assumes "r \<in> set (set_status path filename status tbl)"
  obtains r0 where "r0 \<in> set tbl" and "entry_key r = entry_key r0"
    and "q_transcode r = q_transcode r0"
    and "q_status r = q_status r0 \<or> entry_key r0 = (path, filename)"
proof -
  from assms obtain r0 where r0: "r0 \<in> set tbl"
    "r = (if q_path r0 = path \<and> q_filename r0 = filename then r0\<lparr>q_status := status\<rparr> else r0)"
    unfolding set_status_def by auto
  show thesis
  proof (cases "q_path r0 = path \<and> q_filename r0 = filename")
    case True
    with r0 have "r = r0\<lparr>q_status := status\<rparr>" by simp
    with True r0(1) show ?thesis
      by (intro that [of r0]) (simp_all add: entry_key_def)
  next
    case False
    with r0 have "r = r0" by simp
    with r0(1) show ?thesis
      by (intro that [of r0]) simp_all
  qed
qed

lemma set_status_table_ok:
  assumes "table_ok tbl" and "marked_key tbl (path, filename)"
  shows "table_ok (set_status path filename status tbl)"
proof -
  have "q_transcode r = ''Y'' \<or> q_status r = ''skipped'' \<or> q_status r = ''unknown''"
    if "r \<in> set (set_status path filename status tbl)" for r
  proof -
    from that obtain r0 where r0: "r0 \<in> set tbl" "q_transcode r = q_transcode r0"
      "q_status r = q_status r0 \<or> entry_key r0 = (path, filename)"
      by (rule set_status_rows)
    from r0(3) show ?thesis
    proof
      assume "q_status r = q_status r0"
      with r0(1,2) assms(1) show ?thesis unfolding table_ok_def by auto
    next
      assume "entry_key r0 = (path, filename)"
      with r0(1,2) assms(2) show ?thesis unfolding marked_key_def by auto
    qed
  qed
  with assms(1) show ?thesis
    unfolding table_ok_def by simp
qed

lemma set_status_marked_key:
  assumes "marked_key tbl k"
  shows "marked_key (set_status path filename status tbl) k"
  unfolding marked_key_def
proof (intro ballI impI)
  fix r
  assume r: "r \<in> set (set_status path filename status tbl)" and k: "entry_key r = k"
  from r obtain r0 where "r0 \<in> set tbl" "entry_key r = entry_key r0" "q_transcode r = q_transcode r0"
    "q_status r = q_status r0 \<or> entry_key r0 = (path, filename)"
    by (rule set_status_rows)
  with assms k show "q_transcode r = ''Y''"
    unfolding marked_key_def by auto
qed

lemma transcode_table:
  "queue (fst (transcode env t w)) = queue w
   \<or> (\<exists>st. queue (fst (transcode env t w)) = set_status (t_path t) (t_filename t) st (queue w))"
proof (cases "output_file t = None \<or> video_title t = None")
  case True
  then show ?thesis
    by (simp add: transcode_unset_output) blast
next
  case False
  then obtain out title where o: "output_file t = Some out" "video_title t = Some title"
    by auto
  obtain ok fs1 where eng: "ffmpeg_execute env (input_file t) out (files w) = (ok, fs1)"
    by (cases "ffmpeg_execute env (input_file t) out (files w)") blast
  show ?thesis
    using transcode_queue_table [OF o eng] by auto
qed

lemma delete_original_queue [simp]:
  "queue (fst (delete_original t w)) = queue w"
  by (simp add: delete_original_def unlink_def replace_file_def split: option.splits)

lemma delete_original_pair:
  "delete_original t w = (w2, res) \<Longrightarrow> queue w2 = queue w"
  using delete_original_queue [of t w] by simp

lemma transcode_step_ok:
  assumes "table_ok (queue w)" and "marked_key (queue w) (path, filename)"
    and "\<forall>k \<in> set rest. marked_key (queue w) k"
  shows "table_ok (queue (fst (transcode env (Transcode path filename) w)))
       \<and> (\<forall>k \<in> set rest. marked_key (queue (fst (transcode env (Transcode path filename) w))) k)"
  using transcode_table [of env "Transcode path filename" w] assms
  by (auto simp: set_status_table_ok set_status_marked_key)

lemma transcode_queue_table_ok:
  "table_ok (queue w) \<Longrightarrow> \<forall>k \<in> set q. marked_key (queue w) k \<Longrightarrow>
   table_ok (queue (fst (transcode_queue env DELETE q w)))"
proof (induction q arbitrary: w)
  case Nil
  then show ?case by simp
next
  case (Cons entry rest)
  obtain path filename where entry: "entry = (path, filename)" by (cases entry) blast
  let ?t = "Transcode path filename"
  let ?w1 = "fst (transcode env ?t w)"
  have step: "table_ok (queue ?w1)" "\<forall>k \<in> set rest. marked_key (queue ?w1) k"
    using transcode_step_ok [of w path filename rest env] Cons.prems entry by simp_all
  let ?w2 = "fst (delete_original ?t ?w1)"
  have step2: "table_ok (queue ?w2)" "\<forall>k \<in> set rest. marked_key (queue ?w2) k"
    using step by simp_all
  have "queue (fst (transcode_queue env DELETE (entry # rest) w)) = queue ?w1
        \<or> queue (fst (transcode_queue env DELETE (entry # rest) w))
            = queue (fst (transcode_queue env DELETE rest ?w1))
        \<or> queue (fst (transcode_queue env DELETE (entry # rest) w))
            = queue (fst (transcode_queue env DELETE rest ?w2))"
    unfolding entry
    by (cases "transcode env ?t w"; cases "snd (transcode env ?t w)";
        cases "delete_original ?t ?w1"; cases "snd (delete_original ?t ?w1)")
       (auto simp: Let_def dest: delete_original_pair)
  then show ?case
    using step(1) Cons.IH [OF step] Cons.IH [OF step2] by auto
qed

subsection \<open>Batch selection\<close>

lemma resolve_limit_value:
  "snd (resolve_limit BATCH w) =
     (case py_int BATCH of None \<Rightarrow> None | Some n \<Rightarrow> if n > 0 then Some n else None)"
  by (simp add: resolve_limit_def split: option.splits)

lemma resolve_limit_error_logged:
  "py_int BATCH = None \<Longrightarrow>
   logs (fst (resolve_limit BATCH w)) =
     logs w @ [(ERROR, ''BATCH is not an integer. BATCH='' @ py_repr BATCH @ ''.''),
               (INFO, ''Setting batch to unlimited.'')]"
  by (simp add: resolve_limit_def)

lemma get_batch_unfold:
  "get_batch BATCH w =
     (case (if \<not> storage_ok w then None
            else case snd (resolve_limit BATCH w) of
                   None \<Rightarrow>
                     Some (filter (\<lambda>r. q_transcode r = ''Y'' \<and> q_status r = ''queued'') (queue w))
                 | Some n \<Rightarrow>
                     sql_limit n
                       (filter (\<lambda>r. q_transcode r = ''Y'' \<and> q_status r = ''queued'') (queue w))) of
        None \<Rightarrow>
          (logger_exception
             (logger ERROR ''SQLite transcode selection query failed.''
                (fst (resolve_limit BATCH w))),
           Inl (SystemExit 1))
      | Some batch_queue \<Rightarrow>
          (logger INFO ''Successfully retrieved batch of files to transcode.''
             (fst (resolve_limit BATCH w)),
           Inr (map entry_key batch_queue)))"
proof -
  obtain w1 limit where rl: "resolve_limit BATCH w = (w1, limit)"
    by (cases "resolve_limit BATCH w") blast
  have w1: "queue w1 = queue w" "storage_ok w1 = storage_ok w"
    using resolve_limit_fields [of BATCH w] rl by simp_all
  have nz: "n \<noteq> 0" if "limit = Some n" for n
    using resolve_limit_value [of BATCH w] rl that by (auto split: option.splits if_splits)
  show ?thesis
  proof (cases limit)
    case None
    with rl w1 show ?thesis by (simp add: get_batch_def Let_def)
  next
    case (Some n)
    with rl w1 nz [OF Some] show ?thesis by (simp add: get_batch_def Let_def split: option.splits)
  qed
qed

lemma get_batch_fields [simp]:
  "queue (fst (get_batch BATCH w)) = queue w"
  "files (fst (get_batch BATCH w)) = files w"
  "calls (fst (get_batch BATCH w)) = calls w"
  "storage_ok (fst (get_batch BATCH w)) = storage_ok w"
  unfolding get_batch_unfold by (simp_all split: option.splits)

lemma sql_limit_accepted:
  "0 < n \<Longrightarrow> n < 2 ^ 63 \<Longrightarrow> sql_limit n rows = Some (take (nat n) rows)"
  by (simp add: sql_limit_def)

lemma sql_limit_refused:
  "2 ^ 63 \<le> n \<Longrightarrow> sql_limit n rows = None"
  by (simp add: sql_limit_def)

lemma get_batch_unlimited:
  assumes "storage_ok w" and "snd (resolve_limit BATCH w) = None"
  shows "snd (get_batch BATCH w) =
           Inr (map entry_key
                 (filter (\<lambda>r. q_transcode r = ''Y'' \<and> q_status r = ''queued'') (queue w)))"
    and "logs (fst (get_batch BATCH w)) =
           logs (fst (resolve_limit BATCH w))
           @ [(INFO, ''Successfully retrieved batch of files to transcode.'')]"
  unfolding get_batch_unfold using assms by simp_all

lemma get_batch_limited:
  assumes "storage_ok w" and "snd (resolve_limit BATCH w) = Some n" and "0 < n" and "n < 2 ^ 63"
  shows "snd (get_batch BATCH w) =
           Inr (map entry_key (take (nat n)
                 (filter (\<lambda>r. q_transcode r = ''Y'' \<and> q_status r = ''queued'') (queue w))))"
  unfolding get_batch_unfold using assms by (simp add: sql_limit_accepted)

lemma get_batch_refused:
  assumes "snd (resolve_limit BATCH w) = Some n" and "2 ^ 63 \<le> n"
  shows "snd (get_batch BATCH w) = Inl (SystemExit 1)"
  unfolding get_batch_unfold using assms by (simp add: sql_limit_refused)


text \<open>
  C5, as the code has it. With a working storage, the text of \<open>BATCH\<close> decides the
  selection: a text that \<open>int\<close> does not accept is logged as an error and the call
  still returns all rows with transcode \<open>Y\<close> and status \<open>queued\<close>; zero and negative
  integers return all of them too; a positive integer \<open>n\<close> below \<open>2 ^ 63\<close> returns the
  first \<open>n\<close> of them in table order, so at most \<open>n\<close> rows.
\<close>

theorem get_batch_limit_resolution:
  assumes "storage_ok w"
  shows "(py_int BATCH = None \<longrightarrow>
            snd (get_batch BATCH w) =
              Inr (map entry_key
                    (filter (\<lambda>r. q_transcode r = ''Y'' \<and> q_status r = ''queued'') (queue w)))
          \<and> (ERROR, ''BATCH is not an integer. BATCH='' @ py_repr BATCH @ ''.'')
               \<in> set (logs (fst (get_batch BATCH w))))
       \<and> (\<forall>n. py_int BATCH = Some n \<and> n \<le> 0 \<longrightarrow>
            snd (get_batch BATCH w) =
              Inr (map entry_key
                    (filter (\<lambda>r. q_transcode r = ''Y'' \<and> q_status r = ''queued'') (queue w))))
       \<and> (\<forall>n. py_int BATCH = Some n \<and> 0 < n \<and> n < 2 ^ 63 \<longrightarrow>
            snd (get_batch BATCH w) =
              Inr (map entry_key (take (nat n)
                    (filter (\<lambda>r. q_transcode r = ''Y'' \<and> q_status r = ''queued'') (queue w))))
          \<and> (\<forall>q. snd (get_batch BATCH w) = Inr q \<longrightarrow> int (length q) \<le> n))"
proof -
  have none: "snd (get_batch BATCH w) =
              Inr (map entry_key
                    (filter (\<lambda>r. q_transcode r = ''Y'' \<and> q_status r = ''queued'') (queue w)))
          \<and> (ERROR, ''BATCH is not an integer. BATCH='' @ py_repr BATCH @ ''.'')
               \<in> set (logs (fst (get_batch BATCH w)))"
    if p: "py_int BATCH = None"
  proof -
    have r: "snd (resolve_limit BATCH w) = None"
      using p by (simp add: resolve_limit_value)
    show ?thesis
      using get_batch_unlimited [OF assms r] resolve_limit_error_logged [OF p, of w] by simp
  qed
  have nonpos: "snd (get_batch BATCH w) =
              Inr (map entry_key
                    (filter (\<lambda>r. q_transcode r = ''Y'' \<and> q_status r = ''queued'') (queue w)))"
    if p: "py_int BATCH = Some n" "n \<le> 0" for n
  proof -
    have r: "snd (resolve_limit BATCH w) = None"
      using p by (simp add: resolve_limit_value)
    show ?thesis
      by (rule get_batch_unlimited(1) [OF assms r])
  qed
  have pos: "snd (get_batch BATCH w) =
              Inr (map entry_key (take (nat n)
                    (filter (\<lambda>r. q_transcode r = ''Y'' \<and> q_status r = ''queued'') (queue w))))
          \<and> (\<forall>q. snd (get_batch BATCH w) = Inr q \<longrightarrow> int (length q) \<le> n)"
    if p: "py_int BATCH = Some n" "0 < n" "n < 2 ^ 63" for n
  proof -
    have r: "snd (resolve_limit BATCH w) = Some n"
      using p by (simp add: resolve_limit_value)
    show ?thesis
      using get_batch_limited [OF assms r p(2,3)] p(2) by auto
  qed
  show ?thesis
    using none nonpos pos by blast
qed

lemma py_int_examples:
  "py_int ''abc'' = None" "py_int ''-5'' = Some (- 5)" "py_int ''0'' = Some 0" "py_int ''3'' = Some 3"
  by code_simp+

lemma digit_val_digits:
  "digit_val (CHR ''0'') = Some 0" "digit_val (CHR ''1'') = Some 1" "digit_val (CHR ''2'') = Some 2"
  "digit_val (CHR ''3'') = Some 3" "digit_val (CHR ''4'') = Some 4" "digit_val (CHR ''5'') = Some 5"
  "digit_val (CHR ''6'') = Some 6" "digit_val (CHR ''7'') = Some 7" "digit_val (CHR ''8'') = Some 8"
  "digit_val (CHR ''9'') = Some 9"
  by code_simp+

lemma py_int_two_to_63:
  "py_int ''9223372036854775808'' = Some 9223372036854775808"
  by (simp add: py_int_def int_ascii_def int_isspace_def digit_val_digits digits_value_def Let_def)

lemma py_repr_abc: "py_repr ''abc'' = quoted ''abc''"
  by code_simp

theorem get_batch_limit_resolution_witness:
  "storage_ok example_world
   \<and> py_int ''abc'' = None
   \<and> snd (get_batch ''abc'' example_world) =
       Inr [(''/mnt'', ''movie.mkv''), (''/mnt'', ''e.mkv''), (''/mnt'', ''f.mp4''), (''/mnt'', ''g.mkv'')]
   \<and> (ERROR, ''BATCH is not an integer. BATCH='' @ quoted ''abc'' @ ''.'')
        \<in> set (logs (fst (get_batch ''abc'' example_world)))
   \<and> py_int ''-5'' = Some (- 5)
   \<and> snd (get_batch ''-5'' example_world) =
       Inr [(''/mnt'', ''movie.mkv''), (''/mnt'', ''e.mkv''), (''/mnt'', ''f.mp4''), (''/mnt'', ''g.mkv'')]
   \<and> py_int ''0'' = Some 0
   \<and> snd (get_batch ''0'' example_world) =
       Inr [(''/mnt'', ''movie.mkv''), (''/mnt'', ''e.mkv''), (''/mnt'', ''f.mp4''), (''/mnt'', ''g.mkv'')]
   \<and> py_int ''3'' = Some 3
   \<and> snd (get_batch ''3'' example_world) =
       Inr [(''/mnt'', ''movie.mkv''), (''/mnt'', ''e.mkv''), (''/mnt'', ''f.mp4'')]"
  using get_batch_limit_resolution [OF example_world_fields(1), of "''abc''"]
        get_batch_limit_resolution [OF example_world_fields(1), of "''-5''"]
        get_batch_limit_resolution [OF example_world_fields(1), of "''0''"]
        get_batch_limit_resolution [OF example_world_fields(1), of "''3''"]
  by (simp add: py_int_examples py_repr_abc example_world_fields example_table_def entry_key_def)

text \<open>
  The text \<open>9223372036854775808\<close> is the positive integer \<open>2 ^ 63\<close>: the query with this
  limit is refused, and the call ends the process instead of returning rows.
\<close>

theorem get_batch_limit_out_of_range:
  "storage_ok example_world
   \<and> py_int ''9223372036854775808'' = Some 9223372036854775808
   \<and> snd (get_batch ''9223372036854775808'' example_world) = Inl (SystemExit 1)"
proof -
  have r: "snd (resolve_limit ''9223372036854775808'' example_world) = Some 9223372036854775808"
    by (simp add: resolve_limit_value py_int_two_to_63)
  have "snd (get_batch ''9223372036854775808'' example_world) = Inl (SystemExit 1)"
    by (rule get_batch_refused [OF r]) simp
  then show ?thesis
    by (simp add: example_world_fields py_int_two_to_63)
qed

subsection \<open>Selections in reachable states\<close>

lemma sql_limit_subset:
  "sql_limit n rows = Some xs \<Longrightarrow> set xs \<subseteq> set rows"
  by (auto simp: sql_limit_def split: if_splits dest: in_set_takeD)

lemma get_batch_selected:
  assumes "get_batch BATCH w = (w1, Inr q)"
  shows "queue w1 = queue w"
    and "set q \<subseteq> entry_key ` {r \<in> set (queue w). q_transcode r = ''Y'' \<and> q_status r = ''queued''}"
proof -
  show "queue w1 = queue w"
    using get_batch_fields(1) [of BATCH w] assms by simp
  let ?sel = "filter (\<lambda>r. q_transcode r = ''Y'' \<and> q_status r = ''queued'') (queue w)"
  from assms obtain rows where rows: "q = map entry_key rows" "set rows \<subseteq> set ?sel"
    unfolding get_batch_unfold
    by (auto split: option.splits if_splits dest: sql_limit_subset)
  then show "set q \<subseteq> entry_key ` {r \<in> set (queue w). q_transcode r = ''Y'' \<and> q_status r = ''queued''}"
    by auto
qed

lemma retry_failed_selected:
  assumes "retry_failed w = (w1, Inr q)"
  shows "queue w1 = queue w"
    and "set q = entry_key ` {r \<in> set (queue w). q_status r = ''failed''}"
proof -
  show "queue w1 = queue w"
    using retry_failed_fields(1) [of w] assms by simp
  have ok: "storage_ok w"
    using assms by (auto simp: retry_failed_def split: if_splits)
  show "set q = entry_key ` {r \<in> set (queue w). q_status r = ''failed''}"
    using retry_failed_result [OF ok] assms by auto
qed

lemma marked_key_of_row:
  assumes "table_ok tbl" and "r \<in> set tbl" and "q_transcode r = ''Y''"
  shows "marked_key tbl (entry_key r)"
  unfolding marked_key_def
proof (intro ballI impI)
  fix r'
  assume "r' \<in> set tbl" "entry_key r' = entry_key r"
  with assms(1,2) have "r' = r"
    unfolding table_ok_def by (meson key_determines_row)
  with assms(3) show "q_transcode r' = ''Y''" by simp
qed

lemma failed_row_marked:
  assumes "table_ok tbl" and "r \<in> set tbl" and "q_status r = ''failed''"
  shows "q_transcode r = ''Y''"
  using assms unfolding table_ok_def by auto


lemma reachable_table_ok:
  "reachable w \<Longrightarrow> table_ok (queue w)"
proof (induction rule: reachable.induct)
  case (start fs ok)
  show ?case by (simp add: table_ok_def)
next
  case (surroundings w fs ok)
  then show ?case by simp
next
  case (scan w env walk)
  from scan.IH show ?case by (rule scan_directory_table_ok)
next
  case (select_batch w BATCH)
  then show ?case by simp
next
  case (select_retry w)
  then show ?case by simp
next
  case (run_batch w BATCH w1 batch_queue env DELETE)
  note sel = get_batch_selected [OF run_batch.hyps(2)]
  have "marked_key (queue w1) k" if "k \<in> set batch_queue" for k
  proof -
    from that sel(2) obtain r where "r \<in> set (queue w)" "q_transcode r = ''Y''" "k = entry_key r"
      by auto
    then show ?thesis
      using marked_key_of_row [OF run_batch.IH] sel(1) by simp
  qed
  then show ?case
    using run_batch.IH sel(1) by (intro transcode_queue_table_ok) simp_all
next
  case (run_retry w w1 failed_queue env DELETE)
  note sel = retry_failed_selected [OF run_retry.hyps(2)]
  have "marked_key (queue w1) k" if "k \<in> set failed_queue" for k
  proof -
    from that sel(2) obtain r where r: "r \<in> set (queue w)" "q_status r = ''failed''" "k = entry_key r"
      by auto
    then have "q_transcode r = ''Y''"
      using failed_row_marked [OF run_retry.IH] by blast
    with r show ?thesis
      using marked_key_of_row [OF run_retry.IH] sel(1) by simp
  qed
  then show ?case
    using run_retry.IH sel(1) by (intro transcode_queue_table_ok) simp_all
next
  case (report w)
  then show ?case by simp
qed


text \<open>
  C9. In every state reached by scanning, selecting and transcoding, a row that is
  not marked \<open>Y\<close> is selected by neither selection: batch selection returns only keys
  of rows with transcode \<open>Y\<close> and status \<open>queued\<close>, retry selection returns only keys of
  rows with status \<open>failed\<close>, and every row named by either result has transcode \<open>Y\<close>.
\<close>

theorem unmarked_entry_never_selected:
  assumes "reachable w"
  shows "(\<forall>w1 q. get_batch BATCH w = (w1, Inr q) \<longrightarrow>
            (\<forall>k \<in> set q. \<exists>r \<in> set (queue w).
                entry_key r = k \<and> q_transcode r = ''Y'' \<and> q_status r = ''queued'')
          \<and> (\<forall>r \<in> set (queue w). entry_key r \<in> set q \<longrightarrow> q_transcode r = ''Y''))
       \<and> (\<forall>w1 q. retry_failed w = (w1, Inr q) \<longrightarrow>
            (\<forall>k \<in> set q. \<exists>r \<in> set (queue w). entry_key r = k \<and> q_status r = ''failed'')
          \<and> (\<forall>r \<in> set (queue w). entry_key r \<in> set q \<longrightarrow> q_transcode r = ''Y''))"
proof -
  have ok: "table_ok (queue w)"
    using assms by (rule reachable_table_ok)
  have batch: "(\<forall>k \<in> set q. \<exists>r \<in> set (queue w).
                entry_key r = k \<and> q_transcode r = ''Y'' \<and> q_status r = ''queued'')
          \<and> (\<forall>r \<in> set (queue w). entry_key r \<in> set q \<longrightarrow> q_transcode r = ''Y'')"
    if g: "get_batch BATCH w = (w1, Inr q)" for w1 q
  proof -
    note sel = get_batch_selected(2) [OF g]
    have named: "\<exists>r \<in> set (queue w). entry_key r = k \<and> q_transcode r = ''Y'' \<and> q_status r = ''queued''"
      if "k \<in> set q" for k
      using that sel by auto
    have "q_transcode r = ''Y''" if r: "r \<in> set (queue w)" "entry_key r \<in> set q" for r
    proof -
      from named [OF r(2)] obtain r' where r': "r' \<in> set (queue w)" "entry_key r' = entry_key r"
        "q_transcode r' = ''Y''"
        by blast
      from marked_key_of_row [OF ok r'(1,3)] r(1) r'(2) show ?thesis
        unfolding marked_key_def by simp
    qed
    with named show ?thesis by blast
  qed
  have retry: "(\<forall>k \<in> set q. \<exists>r \<in> set (queue w). entry_key r = k \<and> q_status r = ''failed'')
          \<and> (\<forall>r \<in> set (queue w). entry_key r \<in> set q \<longrightarrow> q_transcode r = ''Y'')"
    if g: "retry_failed w = (w1, Inr q)" for w1 q
  proof -
    note sel = retry_failed_selected(2) [OF g]
    have named: "\<exists>r \<in> set (queue w). entry_key r = k \<and> q_status r = ''failed''"
      if "k \<in> set q" for k
      using that sel by auto
    have "q_transcode r = ''Y''" if r: "r \<in> set (queue w)" "entry_key r \<in> set q" for r
    proof -
      from named [OF r(2)] obtain r' where r': "r' \<in> set (queue w)" "entry_key r' = entry_key r"
        "q_status r' = ''failed''"
        by blast
      have y: "q_transcode r' = ''Y''"
        by (rule failed_row_marked [OF ok r'(1,3)])
      from marked_key_of_row [OF ok r'(1) y] r(1) r'(2) show ?thesis
        unfolding marked_key_def by simp
    qed
    with named show ?thesis by blast
  qed
  show ?thesis
    using batch retry by blast
qed


lemma scanned_world_table:
  "queue scanned_world = [movie_row, clip_row]" "storage_ok scanned_world"
  by code_simp+

lemma batch_of_scanned_world:
  "snd (get_batch ''0'' scanned_world) = Inr [(''/mnt'', ''movie.mkv'')]"
  by code_simp

lemma failed_world_table:
  "queue failed_world =
     [\<lparr>q_path = ''/mnt'', q_filename = ''movie.mkv'', q_transcode = ''Y'', q_status = ''failed''\<rparr>,
      clip_row]"
  by code_simp

lemma retry_of_failed_world:
  "snd (retry_failed failed_world) = Inr [(''/mnt'', ''movie.mkv'')]"
  by code_simp


lemma reachable_failed_world: "reachable failed_world"
proof -
  have "reachable empty_world"
    unfolding empty_world_def by (rule reachable.start)
  then have s: "reachable scanned_world"
    unfolding scanned_world_def by (rule reachable.scan)
  have "get_batch ''0'' scanned_world
          = (fst (get_batch ''0'' scanned_world), Inr [(''/mnt'', ''movie.mkv'')])"
    using batch_of_scanned_world by (metis prod.collapse)
  from reachable.run_batch [OF s this] show ?thesis
    unfolding failed_world_def .
qed

theorem unmarked_entry_never_selected_witness:
  "reachable failed_world
   \<and> queue failed_world =
       [\<lparr>q_path = ''/mnt'', q_filename = ''movie.mkv'', q_transcode = ''Y'', q_status = ''failed''\<rparr>,
        clip_row]
   \<and> q_transcode clip_row = ''N''
   \<and> snd (retry_failed failed_world) = Inr [(''/mnt'', ''movie.mkv'')]
   \<and> snd (get_batch ''0'' failed_world) = Inr []"
proof -
  note sel = unmarked_entry_never_selected [OF reachable_failed_world, of "''0''"]
  have n: "q_transcode clip_row = ''N''"
    by (simp add: clip_row_def)
  have b: "snd (get_batch ''0'' failed_world) = Inr []"
    by code_simp
  show ?thesis
    using sel reachable_failed_world failed_world_table n retry_of_failed_world b by blast
qed

end
